theory Spec2Isabelle
  imports Complex_Main "HOL-Library.Multiset" "HOL-Library.Sublist"
begin

section \<open>Strings\<close>

text \<open>
  A JavaScript string is modelled as a \<^typ>\<open>string\<close>, a list of 8-bit characters: the
  character \<open>CHR n\<close> stands for the code unit \<open>n\<close>, so the strings of the model are the
  strings of code units below 256 (ASCII and Latin-1). The functions of this section are
  those of the engine on such strings; a string with a code unit from 256 on is outside
  the model.

  \<open>toLowerCase\<close>: the characters below 256 with a lower-case mapping are the letters A-Z
  and the letters from \<open>U+00C0\<close> to \<open>U+00DE\<close> (the multiplication sign \<open>U+00D7\<close> apart),
  each mapped to the character 32 places on.
\<close>

definition upperAlphabet :: string where
  "upperAlphabet = ''ABCDEFGHIJKLMNOPQRSTUVWXYZ''"

definition lowerAlphabet :: string where
  "lowerAlphabet = ''abcdefghijklmnopqrstuvwxyz''"

definition upperLatin :: string where
  "upperLatin =
     [CHR 0xC0, CHR 0xC1, CHR 0xC2, CHR 0xC3, CHR 0xC4, CHR 0xC5, CHR 0xC6, CHR 0xC7,
      CHR 0xC8, CHR 0xC9, CHR 0xCA, CHR 0xCB, CHR 0xCC, CHR 0xCD, CHR 0xCE, CHR 0xCF,
      CHR 0xD0, CHR 0xD1, CHR 0xD2, CHR 0xD3, CHR 0xD4, CHR 0xD5, CHR 0xD6, CHR 0xD8,
      CHR 0xD9, CHR 0xDA, CHR 0xDB, CHR 0xDC, CHR 0xDD, CHR 0xDE]"

definition lowerLatin :: string where
  "lowerLatin =
     [CHR 0xE0, CHR 0xE1, CHR 0xE2, CHR 0xE3, CHR 0xE4, CHR 0xE5, CHR 0xE6, CHR 0xE7,
      CHR 0xE8, CHR 0xE9, CHR 0xEA, CHR 0xEB, CHR 0xEC, CHR 0xED, CHR 0xEE, CHR 0xEF,
      CHR 0xF0, CHR 0xF1, CHR 0xF2, CHR 0xF3, CHR 0xF4, CHR 0xF5, CHR 0xF6, CHR 0xF8,
      CHR 0xF9, CHR 0xFA, CHR 0xFB, CHR 0xFC, CHR 0xFD, CHR 0xFE]"

definition lowerChar :: "char \<Rightarrow> char" where
  "lowerChar c =
     (case map_of (zip (upperAlphabet @ upperLatin) (lowerAlphabet @ lowerLatin)) c of
        Some d \<Rightarrow> d
      | None \<Rightarrow> c)"

definition toLowerCase :: "string \<Rightarrow> string" where
  "toLowerCase s = map lowerChar s"

text \<open>The class \<open>\d\<close>.\<close>

definition isDigit :: "char \<Rightarrow> bool" where
  "isDigit c = (c \<in> set ''0123456789'')"

text \<open>
  The class \<open>\s\<close>, which is also the white space and the line terminators that \<open>trim\<close>
  strips: below 256 these are the space, TAB, LF, VT, FF, CR and the no-break space
  \<open>U+00A0\<close>.
\<close>

definition isSpace :: "char \<Rightarrow> bool" where
  "isSpace c =
     (c \<in> set [CHR '' '', CHR 0x09, CHR 0x0A, CHR 0x0B, CHR 0x0C, CHR 0x0D, CHR 0xA0])"

fun startsWith :: "string \<Rightarrow> string \<Rightarrow> bool" where
  "startsWith s [] = True"
| "startsWith [] (k # ks) = False"
| "startsWith (c # cs) (k # ks) = (c = k \<and> startsWith cs ks)"

fun includesStr :: "string \<Rightarrow> string \<Rightarrow> bool" where
  "includesStr [] k = startsWith [] k"
| "includesStr (c # cs) k = (startsWith (c # cs) k \<or> includesStr cs k)"

definition endsWith :: "string \<Rightarrow> string \<Rightarrow> bool" where
  "endsWith s k = startsWith (rev s) (rev k)"

text \<open>\<open>String.prototype.trim\<close>: white space removed at both ends.\<close>

definition trim :: "string \<Rightarrow> string" where
  "trim s = rev (dropWhile isSpace (rev (dropWhile isSpace s)))"

text \<open>\<open>Array.prototype.join\<close> on strings.\<close>

fun joinWith :: "string \<Rightarrow> string list \<Rightarrow> string" where
  "joinWith sep [] = []"
| "joinWith sep [s] = s"
| "joinWith sep (s # t # ts) = s @ sep @ joinWith sep (t # ts)"

section \<open>Regular expressions\<close>

text \<open>
  The regular expressions of the source that are only tested (\<open>RegExp.prototype.test\<close>, no
  capture) are written as terms of \<open>rx\<close> and run by derivatives. The flag \<open>i\<close> is modelled by
  testing the lower-cased subject against the lower-case pattern: the letters of the
  patterns are ASCII letters, which a character below 256 matches under the flag exactly
  when its lower case is the lower case of the letter.
\<close>

datatype rx =
    Eps
  | Chr char
  | Cls "char list"
  | Dot
  | Seq rx rx
  | Alt rx rx
  | Opt rx
  | Star rx

text \<open>The line terminators, which \<open>.\<close> does not match: below 256 these are LF and CR.\<close>

definition isLineTerminator :: "char \<Rightarrow> bool" where
  "isLineTerminator c = (c = CHR 0x0A \<or> c = CHR 0x0D)"

fun nullable :: "rx \<Rightarrow> bool" where
  "nullable Eps = True"
| "nullable (Chr c) = False"
| "nullable (Cls cs) = False"
| "nullable Dot = False"
| "nullable (Seq r s) = (nullable r \<and> nullable s)"
| "nullable (Alt r s) = (nullable r \<or> nullable s)"
| "nullable (Opt r) = True"
| "nullable (Star r) = True"

text \<open>\<open>None\<close> is the expression that matches nothing.\<close>

fun seqO :: "rx option \<Rightarrow> rx \<Rightarrow> rx option" where
  "seqO None s = None"
| "seqO (Some r) s = Some (Seq r s)"

fun altO :: "rx option \<Rightarrow> rx option \<Rightarrow> rx option" where
  "altO None b = b"
| "altO (Some r) None = Some r"
| "altO (Some r) (Some s) = Some (Alt r s)"

fun deriv :: "char \<Rightarrow> rx \<Rightarrow> rx option" where
  "deriv c Eps = None"
| "deriv c (Chr d) = (if c = d then Some Eps else None)"
| "deriv c (Cls cs) = (if c \<in> set cs then Some Eps else None)"
| "deriv c Dot = (if isLineTerminator c then None else Some Eps)"
| "deriv c (Seq r s) =
     altO (seqO (deriv c r) s) (if nullable r then deriv c s else None)"
| "deriv c (Alt r s) = altO (deriv c r) (deriv c s)"
| "deriv c (Opt r) = deriv c r"
| "deriv c (Star r) = seqO (deriv c r) (Star r)"

text \<open>Some prefix of the subject matches the expression (\<open>/^r/\<close>).\<close>

fun rxPrefix :: "rx \<Rightarrow> string \<Rightarrow> bool" where
  "rxPrefix r [] = nullable r"
| "rxPrefix r (c # cs) =
     (nullable r \<or> (case deriv c r of None \<Rightarrow> False | Some r' \<Rightarrow> rxPrefix r' cs))"

text \<open>The whole subject matches the expression (\<open>/^r$/\<close>).\<close>

fun rxFull :: "rx \<Rightarrow> string \<Rightarrow> bool" where
  "rxFull r [] = nullable r"
| "rxFull r (c # cs) = (case deriv c r of None \<Rightarrow> False | Some r' \<Rightarrow> rxFull r' cs)"

text \<open>Some substring of the subject matches the expression (\<open>/r/\<close>).\<close>

fun rxSearch :: "rx \<Rightarrow> string \<Rightarrow> bool" where
  "rxSearch r [] = nullable r"
| "rxSearch r (c # cs) = (rxPrefix r (c # cs) \<or> rxSearch r cs)"

text \<open>A literal string as an expression.\<close>

fun lit :: "string \<Rightarrow> rx" where
  "lit [] = Eps"
| "lit [c] = Chr c"
| "lit (c # d # ds) = Seq (Chr c) (lit (d # ds))"

fun alts :: "rx list \<Rightarrow> rx" where
  "alts [] = Cls []"
| "alts [r] = r"
| "alts (r # s # rs) = Alt r (alts (s # rs))"

text \<open>\<open>/r/i.test(k)\<close>, \<open>/^r/i.test(k)\<close> and \<open>/^r$/i.test(k)\<close> for a lower-case pattern.\<close>

definition testI :: "rx \<Rightarrow> string \<Rightarrow> bool" where
  "testI r k = rxSearch r (toLowerCase k)"

definition testPrefixI :: "rx \<Rightarrow> string \<Rightarrow> bool" where
  "testPrefixI r k = rxPrefix r (toLowerCase k)"

definition testFullI :: "rx \<Rightarrow> string \<Rightarrow> bool" where
  "testFullI r k = rxFull r (toLowerCase k)"

text \<open>\<open>Array.prototype.find\<close>.\<close>

fun findFirst :: "('a \<Rightarrow> bool) \<Rightarrow> 'a list \<Rightarrow> 'a option" where
  "findFirst p [] = None"
| "findFirst p (x # xs) = (if p x then Some x else findFirst p xs)"

section \<open>File classification\<close>

datatype FileKind =
    stats
  | mapping
  | dge_summary
  | comparison_dge
  | comparison_go
  | comparison_kegg
  | template
  | gtf_novel
  | gtf_merged
  | deliverable_only
  | unknown

subsection \<open>detectComparisonId\<close>

text \<open>
  \<^verbatim>\<open>filename.match(/(?:Comparison|Comp|C|Contrast|Group|G)\s*[-_]?\s*(\d+)/i)\<close>,
  \<^verbatim>\<open>match ? `C${match[1]}` : null\<close>.
  \<open>idTail\<close> is \<^verbatim>\<open>\s*[-_]?\s*(\d+)\<close> at the start of a text and gives the captured digits:
  the three classes are disjoint, so the greedy run is the only way to match.
  \<open>firstWord\<close> tries the alternatives in the order of the pattern at one position, and
  \<open>idSearch\<close> the positions from the left.
\<close>

definition groupWords :: "string list" where
  "groupWords = [''comparison'', ''comp'', ''c'', ''contrast'', ''group'', ''g'']"

definition idTail :: "string \<Rightarrow> string option" where
  "idTail t =
     (let t1 = dropWhile isSpace t;
          t2 = (case t1 of [] \<Rightarrow> t1
                | c # r \<Rightarrow> if c = CHR ''-'' \<or> c = CHR ''_'' then r else t1);
          t3 = dropWhile isSpace t2;
          ds = takeWhile isDigit t3
      in if ds = [] then None else Some ds)"

fun firstWord :: "string list \<Rightarrow> string \<Rightarrow> string option" where
  "firstWord [] t = None"
| "firstWord (w # ws) t =
     (if startsWith (toLowerCase t) w
      then (case idTail (drop (length w) t) of
              Some ds \<Rightarrow> Some ds
            | None \<Rightarrow> firstWord ws t)
      else firstWord ws t)"

fun idSearch :: "string \<Rightarrow> string option" where
  "idSearch [] = None"
| "idSearch (c # cs) =
     (case firstWord groupWords (c # cs) of
        Some ds \<Rightarrow> Some ds
      | None \<Rightarrow> idSearch cs)"

definition detectComparisonId :: "string \<Rightarrow> string option" where
  "detectComparisonId filename =
     (case idSearch filename of None \<Rightarrow> None | Some ds \<Rightarrow> Some (''C'' @ ds))"

subsection \<open>detectFileType\<close>

text \<open>The conditions of the rules, in the order of the source, on the lower-cased name.\<close>

definition isDeliverableExt :: "string \<Rightarrow> bool" where
  "isDeliverableExt lower =
     (endsWith lower ''.fastq'' \<or> endsWith lower ''.fq'' \<or> endsWith lower ''.fastq.gz''
      \<or> endsWith lower ''.fq.gz''
      \<or> endsWith lower ''.bam'' \<or> endsWith lower ''.sam'' \<or> endsWith lower ''.bai''
      \<or> endsWith lower ''.fa'' \<or> endsWith lower ''.fasta'' \<or> endsWith lower ''.fna''
      \<or> endsWith lower ''.pdf'' \<or> endsWith lower ''.png'' \<or> endsWith lower ''.jpg''
      \<or> endsWith lower ''.jpeg'' \<or> endsWith lower ''.svg'')"

definition isTemplateExt :: "string \<Rightarrow> bool" where
  "isTemplateExt lower = (endsWith lower ''.html'' \<or> endsWith lower ''.htm'')"

definition isGtfExt :: "string \<Rightarrow> bool" where
  "isGtfExt lower = endsWith lower ''.gtf''"

definition isMappingName :: "string \<Rightarrow> bool" where
  "isMappingName lower =
     ((includesStr lower ''mapping'' \<or> includesStr lower ''align'' \<or> includesStr lower ''star''
       \<or> includesStr lower ''bowtie'' \<or> includesStr lower ''hisat'')
      \<and> (includesStr lower ''stat'' \<or> includesStr lower ''summary'' \<or> includesStr lower ''report''
         \<or> includesStr lower ''log'' \<or> endsWith lower ''.txt'' \<or> endsWith lower ''.csv''
         \<or> endsWith lower ''.xlsx''))"

definition isStatsName :: "string \<Rightarrow> bool" where
  "isStatsName lower =
     (includesStr lower ''multiqc''
      \<or> ((includesStr lower ''stat'' \<or> includesStr lower ''report'' \<or> includesStr lower ''summary'')
         \<and> (includesStr lower ''data'' \<or> includesStr lower ''raw'' \<or> includesStr lower ''seq''
            \<or> includesStr lower ''trim'' \<or> includesStr lower ''qc'' \<or> includesStr lower ''qual'')))"

definition isDgeSummaryName :: "string \<Rightarrow> bool" where
  "isDgeSummaryName lower =
     ((includesStr lower ''summary'' \<or> includesStr lower ''overview'' \<or> includesStr lower ''all'')
      \<and> (includesStr lower ''dge'' \<or> includesStr lower ''diff'' \<or> includesStr lower ''deg''))"

definition isGoName :: "string \<Rightarrow> bool" where
  "isGoName lower =
     ((includesStr lower ''go''
       \<and> (includesStr lower ''enrich'' \<or> includesStr lower ''term'' \<or> includesStr lower ''result''
          \<or> includesStr lower ''_go'' \<or> includesStr lower ''go_''))
      \<or> includesStr lower ''gene_ontology'')"

definition isKeggName :: "string \<Rightarrow> bool" where
  "isKeggName lower = (includesStr lower ''kegg'' \<or> includesStr lower ''pathway'')"

definition dgeKeywords :: "string list" where
  "dgeKeywords = [''dge'', ''diff'', ''deg'', ''result'', ''comp'', ''contrast'', ''vs'',
     ''change'', ''fc'', ''volcano'', ''ma_plot'', ''table'', ''output'']"

definition isDgeName :: "string \<Rightarrow> bool" where
  "isDgeName lower =
     (list_ex (\<lambda>k. includesStr lower k) dgeKeywords
      \<and> \<not> includesStr lower ''summary'' \<and> \<not> includesStr lower ''overview'')"

definition isIdFallback :: "string \<Rightarrow> string \<Rightarrow> bool" where
  "isIdFallback filename lower =
     (detectComparisonId filename \<noteq> None
      \<and> (endsWith lower ''xlsx'' \<or> endsWith lower ''csv'' \<or> endsWith lower ''txt''
         \<or> endsWith lower ''xls''))"

definition isTabularExt :: "string \<Rightarrow> bool" where
  "isTabularExt lower =
     (endsWith lower ''.txt'' \<or> endsWith lower ''.csv'' \<or> endsWith lower ''.xlsx''
      \<or> endsWith lower ''.xls'' \<or> endsWith lower ''.tsv'')"

definition detectFileType :: "string \<Rightarrow> FileKind" where
  "detectFileType filename =
     (let lower = toLowerCase filename in
      if isDeliverableExt lower then deliverable_only
      else if isTemplateExt lower then template
      else if isGtfExt lower then
        (if includesStr lower ''novel'' \<or> includesStr lower ''isoform'' then gtf_novel
         else gtf_merged)
      else if isMappingName lower then mapping
      else if isStatsName lower then stats
      else if isDgeSummaryName lower then dge_summary
      else if isGoName lower then comparison_go
      else if isKeggName lower then comparison_kegg
      else if isDgeName lower then comparison_dge
      else if isIdFallback filename lower then comparison_dge
      else if isTabularExt lower then deliverable_only
      else unknown)"


section \<open>JavaScript values\<close>

text \<open>
  A JavaScript number is a real, \<open>NaN\<close> or an infinity; the rounding of double precision, its
  overflow to an infinity and the sign of zero are outside the model.
\<close>

datatype jsnum = NaN | NegInf | Fin real | PosInf

text \<open>
  The values: the primitive ones, which a cell of a sheet holds, and the two kinds of
  object that reading a property of a plain object can find on \<open>Object.prototype\<close>: the
  object \<open>Object.prototype\<close> itself (read as \<open>__proto__\<close>) and its built-in function of a
  given name. No cell holds an object.
\<close>

datatype jsval =
    Undefined
  | Null
  | JBool bool
  | JNum jsnum
  | JStr string
  | ObjectPrototype
  | Builtin string

definition isNaN :: "jsnum \<Rightarrow> bool" where
  "isNaN n = (n = NaN)"

text \<open>\<open>a < b\<close> on numbers: false when an operand is \<open>NaN\<close>.\<close>

fun js_less :: "jsnum \<Rightarrow> jsnum \<Rightarrow> bool" where
  "js_less NaN b = False"
| "js_less a NaN = False"
| "js_less NegInf NegInf = False"
| "js_less NegInf b = True"
| "js_less (Fin x) (Fin y) = (x < y)"
| "js_less (Fin x) PosInf = True"
| "js_less (Fin x) NegInf = False"
| "js_less PosInf b = False"

fun js_neg :: "jsnum \<Rightarrow> jsnum" where
  "js_neg NaN = NaN"
| "js_neg NegInf = PosInf"
| "js_neg (Fin x) = Fin (- x)"
| "js_neg PosInf = NegInf"

fun js_add :: "jsnum \<Rightarrow> jsnum \<Rightarrow> jsnum" where
  "js_add NaN b = NaN"
| "js_add a NaN = NaN"
| "js_add (Fin x) (Fin y) = Fin (x + y)"
| "js_add (Fin x) b = b"
| "js_add a (Fin y) = a"
| "js_add NegInf NegInf = NegInf"
| "js_add PosInf PosInf = PosInf"
| "js_add NegInf PosInf = NaN"
| "js_add PosInf NegInf = NaN"

definition js_sub :: "jsnum \<Rightarrow> jsnum \<Rightarrow> jsnum" where
  "js_sub a b = js_add a (js_neg b)"

text \<open>\<open>a / b\<close> (the sign of a zero divisor is not modelled: it counts as \<open>+0\<close>).\<close>

fun js_div :: "jsnum \<Rightarrow> jsnum \<Rightarrow> jsnum" where
  "js_div NaN b = NaN"
| "js_div a NaN = NaN"
| "js_div (Fin x) (Fin y) =
     (if y = 0 then (if x = 0 then NaN else if 0 < x then PosInf else NegInf)
      else Fin (x / y))"
| "js_div (Fin x) b = Fin 0"
| "js_div NegInf (Fin y) = (if y < 0 then PosInf else NegInf)"
| "js_div PosInf (Fin y) = (if y < 0 then NegInf else PosInf)"
| "js_div a b = NaN"

fun js_abs :: "jsnum \<Rightarrow> jsnum" where
  "js_abs NaN = NaN"
| "js_abs NegInf = PosInf"
| "js_abs (Fin x) = Fin \<bar>x\<bar>"
| "js_abs PosInf = PosInf"

text \<open>\<open>Math.min\<close> and \<open>Math.max\<close> of two numbers.\<close>

definition js_min :: "jsnum \<Rightarrow> jsnum \<Rightarrow> jsnum" where
  "js_min a b = (if a = NaN \<or> b = NaN then NaN else if js_less b a then b else a)"

definition js_max :: "jsnum \<Rightarrow> jsnum \<Rightarrow> jsnum" where
  "js_max a b = (if a = NaN \<or> b = NaN then NaN else if js_less a b then b else a)"

fun js_log10 :: "jsnum \<Rightarrow> jsnum" where
  "js_log10 NaN = NaN"
| "js_log10 NegInf = NaN"
| "js_log10 (Fin x) = (if x < 0 then NaN else if x = 0 then NegInf else Fin (log 10 x))"
| "js_log10 PosInf = PosInf"

text \<open>\<open>Math.round\<close>: the nearest integer, a tie going up.\<close>

fun js_round :: "jsnum \<Rightarrow> jsnum" where
  "js_round (Fin x) = Fin (of_int \<lfloor>x + 1 / 2\<rfloor>)"
| "js_round a = a"

text \<open>
  \<open>parseFloat(x.toFixed(3))\<close>: three decimals, a tie going away from zero; from \<open>10^21\<close> on
  \<open>toFixed\<close> prints the number itself.
\<close>

fun toFixed3 :: "jsnum \<Rightarrow> jsnum" where
  "toFixed3 (Fin x) =
     (if \<bar>x\<bar> < 10 ^ 21 then Fin (sgn x * of_int \<lfloor>\<bar>x\<bar> * 1000 + 1 / 2\<rfloor> / 1000) else Fin x)"
| "toFixed3 a = a"

text \<open>Truthiness, as \<open>!!v\<close>, \<open>v || d\<close> and \<open>if (v)\<close> read it.\<close>

fun truthy :: "jsval \<Rightarrow> bool" where
  "truthy Undefined = False"
| "truthy Null = False"
| "truthy (JBool b) = b"
| "truthy (JNum n) = (n \<noteq> NaN \<and> n \<noteq> Fin 0)"
| "truthy (JStr s) = (s \<noteq> [])"
| "truthy ObjectPrototype = True"
| "truthy (Builtin n) = True"

text \<open>\<open>a || b\<close> on values.\<close>

definition orElse :: "jsval \<Rightarrow> jsval \<Rightarrow> jsval" where
  "orElse a b = (if truthy a then a else b)"

text \<open>
  The built-in conversions between strings and numbers are parameters of the model: the
  decimal form of a finite number (\<open>Number::toString\<close>), \<open>parseFloat\<close>, \<open>parseInt\<close> and
  \<open>Number\<close> on a string, and \<open>a.localeCompare(b, undefined, {numeric: true})\<close>; so is the
  text \<open>String(f)\<close> the engine prints for the built-in function \<open>f\<close> of a given name, which
  begins with the word \<open>function\<close>.
\<close>

record jsenv =
  numToString :: "real \<Rightarrow> string"
  functionText :: "string \<Rightarrow> string"
  parseFloatStr :: "string \<Rightarrow> jsnum"
  parseIntStr :: "string \<Rightarrow> jsnum"
  strToNumber :: "string \<Rightarrow> jsnum"
  localeCompareNumeric :: "string \<Rightarrow> string \<Rightarrow> jsnum"

text \<open>\<open>String(v)\<close>.\<close>

fun toStr :: "jsenv \<Rightarrow> jsval \<Rightarrow> string" where
  "toStr J Undefined = ''undefined''"
| "toStr J Null = ''null''"
| "toStr J (JBool b) = (if b then ''true'' else ''false'')"
| "toStr J (JNum NaN) = ''NaN''"
| "toStr J (JNum NegInf) = ''-Infinity''"
| "toStr J (JNum PosInf) = ''Infinity''"
| "toStr J (JNum (Fin x)) = numToString J x"
| "toStr J (JStr s) = s"
| "toStr J ObjectPrototype = ''[object Object]''"
| "toStr J (Builtin n) = functionText J n"

text \<open>
  \<open>parseFloat(v)\<close> parses \<open>String(v)\<close>; a number prints to a string that parses back to it,
  and the string of any other value that is no string begins with a letter or a bracket.
\<close>

fun parseFloat :: "jsenv \<Rightarrow> jsval \<Rightarrow> jsnum" where
  "parseFloat J (JNum n) = n"
| "parseFloat J (JStr s) = parseFloatStr J s"
| "parseFloat J v = NaN"

text \<open>\<open>parseInt(String(v))\<close>.\<close>

definition parseIntOf :: "jsenv \<Rightarrow> jsval \<Rightarrow> jsnum" where
  "parseIntOf J v = parseIntStr J (toStr J v)"

text \<open>\<open>Number(v)\<close>.\<close>

fun toNumber :: "jsenv \<Rightarrow> jsval \<Rightarrow> jsnum" where
  "toNumber J Undefined = NaN"
| "toNumber J Null = Fin 0"
| "toNumber J (JBool b) = Fin (if b then 1 else 0)"
| "toNumber J (JNum n) = n"
| "toNumber J (JStr s) = strToNumber J s"
| "toNumber J ObjectPrototype = NaN"
| "toNumber J (Builtin n) = NaN"

subsection \<open>Objects\<close>

text \<open>
  The own properties of an object are a list in the order \<open>Object.keys\<close> lists them: the
  array indices (canonical decimal strings below \<open>2^32 - 1\<close>) in ascending order first,
  then the other names in the order of their creation.
\<close>

type_synonym 'a jsobj = "(string \<times> 'a) list"

definition digitVal :: "char \<Rightarrow> nat" where
  "digitVal c = (case map_of (zip ''0123456789'' [0, 1, 2, 3, 4, 5, 6, 7, 8, 9]) c of Some d \<Rightarrow> d | None \<Rightarrow> 0)"

definition digitsToNat :: "string \<Rightarrow> nat" where
  "digitsToNat s = foldl (\<lambda>n c. 10 * n + digitVal c) 0 s"

definition isArrayIndex :: "string \<Rightarrow> bool" where
  "isArrayIndex s =
     (s \<noteq> [] \<and> list_all isDigit s \<and> (s = ''0'' \<or> hd s \<noteq> CHR ''0'')
      \<and> digitsToNat s < 4294967295)"

text \<open>A new array index goes before the first property that is a name or a larger index.\<close>

fun insertIndex :: "string \<Rightarrow> 'a \<Rightarrow> 'a jsobj \<Rightarrow> 'a jsobj" where
  "insertIndex k v [] = [(k, v)]"
| "insertIndex k v ((k', v') # ps) =
     (if isArrayIndex k' \<and> digitsToNat k' < digitsToNat k
      then (k', v') # insertIndex k v ps
      else (k, v) # (k', v') # ps)"

text \<open>
  The own data property \<open>k\<close> set to \<open>v\<close>: its value is replaced where it stands, or the
  property is created.
\<close>

definition putOwn :: "'a jsobj \<Rightarrow> string \<Rightarrow> 'a \<Rightarrow> 'a jsobj" where
  "putOwn obj k v =
     (if k \<in> fst ` set obj then map (\<lambda>(k', v'). if k' = k then (k', v) else (k', v')) obj
      else if isArrayIndex k then insertIndex k v obj
      else obj @ [(k, v)])"

text \<open>
  The names of the properties of \<open>Object.prototype\<close> that are functions. Its one other
  property is the accessor \<open>__proto__\<close>.
\<close>

definition prototypeFunctions :: "string list" where
  "prototypeFunctions =
     [''constructor'', ''__defineGetter__'', ''__defineSetter__'', ''hasOwnProperty'',
      ''__lookupGetter__'', ''__lookupSetter__'', ''isPrototypeOf'', ''propertyIsEnumerable'',
      ''toString'', ''valueOf'', ''toLocaleString'']"

text \<open>
  What a read of the property \<open>k\<close> finds on \<open>Object.prototype\<close>: the getter of \<open>__proto__\<close>
  gives the prototype of the object that is read, which is \<open>Object.prototype\<close>.
\<close>

definition inheritedProp :: "string \<Rightarrow> jsval" where
  "inheritedProp k =
     (if k = ''__proto__'' then ObjectPrototype
      else if k \<in> set prototypeFunctions then Builtin k
      else Undefined)"

text \<open>
  An object created by \<open>{}\<close> and filled with primitive values: its own properties, and
  whether its prototype has been set to \<open>null\<close> (it is \<open>Object.prototype\<close> otherwise).
\<close>

datatype jsrow = Row (ownProps: "jsval jsobj") (protoNull: bool)

definition emptyRow :: jsrow where
  "emptyRow = Row [] False"

text \<open>
  \<open>obj[k] = v\<close> for a primitive \<open>v\<close>. The name \<open>__proto__\<close> reaches the setter inherited
  from \<open>Object.prototype\<close>, which creates no property: it sets the prototype to \<open>null\<close> when
  \<open>v\<close> is \<open>null\<close> and does nothing for another primitive. Once the prototype is \<open>null\<close>
  nothing is inherited, and \<open>__proto__\<close> is a name like the others. Every other property
  of \<open>Object.prototype\<close> is a writable data property, which the assignment shadows by an
  own property.
\<close>

definition objSet :: "jsrow \<Rightarrow> string \<Rightarrow> jsval \<Rightarrow> jsrow" where
  "objSet obj k v =
     (if k = ''__proto__'' \<and> \<not> protoNull obj
      then (if v = Null then Row (ownProps obj) True else obj)
      else Row (putOwn (ownProps obj) k v) (protoNull obj))"

text \<open>\<open>Object.keys(obj)\<close>.\<close>

definition objKeys :: "jsrow \<Rightarrow> string list" where
  "objKeys obj = map fst (ownProps obj)"

text \<open>
  A property key that may be \<open>undefined\<close> (the result of a \<open>find\<close> that found nothing, or
  of an index out of range): \<open>obj[undefined]\<close> reads the property named \<open>"undefined"\<close>.
\<close>

definition keyName :: "string option \<Rightarrow> string" where
  "keyName k = (case k of None \<Rightarrow> ''undefined'' | Some s \<Rightarrow> s)"

text \<open>\<open>row[k]\<close> on a row object: the own property, or else the inherited one.\<close>

definition getProp :: "jsrow \<Rightarrow> string option \<Rightarrow> jsval" where
  "getProp obj k =
     (case map_of (ownProps obj) (keyName k) of
        Some v \<Rightarrow> v
      | None \<Rightarrow> if protoNull obj then Undefined else inheritedProp (keyName k))"

text \<open>\<open>keys[i]\<close>.\<close>

definition nthKey :: "string list \<Rightarrow> nat \<Rightarrow> string option" where
  "nthKey keys i = (if i < length keys then Some (keys ! i) else None)"

text \<open>A key is truthy when it is a non-empty string.\<close>

definition keyTruthy :: "string option \<Rightarrow> bool" where
  "keyTruthy k = (case k of None \<Rightarrow> False | Some s \<Rightarrow> s \<noteq> [])"

text \<open>\<open>a || b\<close> on keys.\<close>

definition keyOr :: "string option \<Rightarrow> string option \<Rightarrow> string option" where
  "keyOr a b = (if keyTruthy a then a else b)"

section \<open>Tabular normalisation\<close>

text \<open>
  The raw grid is what \<open>XLSX.utils.sheet_to_json(sheet, {header: 1})\<close> returns: one array
  per row, an empty cell being a hole of the array (\<open>None\<close>).
\<close>

type_synonym cell = "jsval option"

type_synonym grid = "cell list list"

text \<open>An element as \<open>Array.prototype.join\<close> prints it: a hole, \<open>undefined\<close> and \<open>null\<close> are empty.\<close>

fun cellJoin :: "jsenv \<Rightarrow> cell \<Rightarrow> string" where
  "cellJoin J None = []"
| "cellJoin J (Some Undefined) = []"
| "cellJoin J (Some Null) = []"
| "cellJoin J (Some v) = toStr J v"

text \<open>\<open>rawData[i].join(' ').toLowerCase()\<close>.\<close>

definition rowStr :: "jsenv \<Rightarrow> cell list \<Rightarrow> string" where
  "rowStr J row = toLowerCase (joinWith '' '' (map (cellJoin J) row))"

text \<open>\<open>keywords.filter(k => rowStr.includes(k.toLowerCase())).length\<close>.\<close>

definition matchCount :: "jsenv \<Rightarrow> string list \<Rightarrow> cell list \<Rightarrow> nat" where
  "matchCount J keywords row =
     length (filter (\<lambda>k. includesStr (rowStr J row) (toLowerCase k)) keywords)"

text \<open>
  The loop over \<open>i\<close> that finds the header row; it leaves \<open>headerRowIndex\<close> at \<open>0\<close> when no
  row of the window matches.
\<close>

function headerScan :: "jsenv \<Rightarrow> string list \<Rightarrow> grid \<Rightarrow> nat \<Rightarrow> nat" where
  "headerScan J keywords rawData i =
     (if i < min (length rawData) 20
      then (if 1 \<le> matchCount J keywords (rawData ! i) then i
            else headerScan J keywords rawData (i + 1))
      else 0)"
  by pat_completeness auto
termination
  by (relation "measure (\<lambda>(J, keywords, rawData, i). min (length rawData) 20 - i)") auto

declare headerScan.simps [simp del]

definition headerRowIndex :: "jsenv \<Rightarrow> string list \<Rightarrow> grid \<Rightarrow> nat" where
  "headerRowIndex J keywords rawData = headerScan J keywords rawData 0"

text \<open>\<open>rawData[headerRowIndex].map(h => String(h).trim())\<close>: \<open>map\<close> keeps the holes.\<close>

definition headersOf :: "jsenv \<Rightarrow> cell list \<Rightarrow> string option list" where
  "headersOf J row = map (map_option (\<lambda>v. trim (toStr J v))) row"

text \<open>\<open>row[idx]\<close> on an array: a hole and an index out of range read \<open>undefined\<close>.\<close>

definition cellAt :: "cell list \<Rightarrow> nat \<Rightarrow> jsval" where
  "cellAt row idx =
     (if idx < length row then (case row ! idx of None \<Rightarrow> Undefined | Some v \<Rightarrow> v)
      else Undefined)"

text \<open>\<open>headers.forEach((h, idx) => { obj[h] = row[idx]; })\<close>: \<open>forEach\<close> skips the holes.\<close>

definition headerStep :: "cell list \<Rightarrow> jsrow \<Rightarrow> nat \<times> string option \<Rightarrow> jsrow" where
  "headerStep row obj ih =
     (case snd ih of None \<Rightarrow> obj | Some h \<Rightarrow> objSet obj h (cellAt row (fst ih)))"

definition rowObject :: "string option list \<Rightarrow> cell list \<Rightarrow> jsrow" where
  "rowObject headers row = foldl (headerStep row) emptyRow (enumerate 0 headers)"

definition smartSheetToJson :: "jsenv \<Rightarrow> grid \<Rightarrow> string list \<Rightarrow> jsrow list" where
  "smartSheetToJson J rawData keywords =
     (if rawData = [] then []
      else
        let h = headerRowIndex J keywords rawData;
            headers = headersOf J (rawData ! h)
        in map (rowObject headers) (filter (\<lambda>row. row \<noteq> []) (drop (h + 1) rawData)))"

section \<open>Differential-expression summarizer\<close>

record ComparisonStats =
  cs_total :: nat
  cs_up :: nat
  cs_down :: nat
  cs_sigUp :: nat
  cs_sigDown :: nat
  cs_sigTotal :: nat

definition zeroStats :: ComparisonStats where
  "zeroStats = \<lparr>cs_total = 0, cs_up = 0, cs_down = 0, cs_sigUp = 0, cs_sigDown = 0, cs_sigTotal = 0\<rparr>"

text \<open>The point built for a row (\<open>x\<close>, \<open>y\<close>, \<open>maX\<close>, \<open>sig\<close>, \<open>label\<close>) and a point of a chart.\<close>

record Point =
  px :: jsnum
  py :: jsnum
  pmaX :: jsnum
  psig :: bool
  plabel :: string

record ChartPoint =
  cx :: jsnum
  cy :: jsnum
  csig :: bool
  clabel :: string

record DgeResult =
  sigCount :: nat
  dgeStats :: ComparisonStats
  volcanoPoints :: "ChartPoint list"
  maPoints :: "ChartPoint list"

definition emptyDge :: DgeResult where
  "emptyDge = \<lparr>sigCount = 0, dgeStats = zeroStats, volcanoPoints = [], maPoints = []\<rparr>"

definition MAX_POINTS :: nat where
  "MAX_POINTS = 5000"

definition SIG_LIMIT :: nat where
  "SIG_LIMIT = 3000"

text \<open>The keywords that locate the header row of a comparison sheet.\<close>

definition dgeSheetKeywords :: "string list" where
  "dgeSheetKeywords = [''logfc'', ''fdr'', ''pvalue'', ''padj'', ''foldchange'']"

text \<open>
  \<^verbatim>\<open>/log2?fc|foldchange|log2_fold_change/i\<close>, \<^verbatim>\<open>/fdr|padj|adj\.?p|q_?value/i\<close>,
  \<^verbatim>\<open>/logcpm|log2?cpm|cpm/i\<close> and \<^verbatim>\<open>/gene|transcript|id|symbol|name|target_id/i\<close>.
\<close>

definition logFCRx :: rx where
  "logFCRx = alts [Seq (lit ''log'') (Seq (Opt (Chr CHR ''2'')) (lit ''fc'')),
                   lit ''foldchange'', lit ''log2_fold_change'']"

definition fdrRx :: rx where
  "fdrRx = alts [lit ''fdr'', lit ''padj'',
                 Seq (lit ''adj'') (Seq (Opt (Chr CHR ''.'')) (Chr CHR ''p'')),
                 Seq (Chr CHR ''q'') (Seq (Opt (Chr CHR ''_'')) (lit ''value''))]"

definition cpmRx :: rx where
  "cpmRx = alts [lit ''logcpm'', Seq (lit ''log'') (Seq (Opt (Chr CHR ''2'')) (lit ''cpm'')),
                 lit ''cpm'']"

definition idRx :: rx where
  "idRx = alts [lit ''gene'', lit ''transcript'', lit ''id'', lit ''symbol'', lit ''name'',
                lit ''target_id'']"

text \<open>The column keys: \<open>keys.find(...) || keys[1]\<close> and its siblings.\<close>

definition logFCKeyOf :: "string list \<Rightarrow> string option" where
  "logFCKeyOf keys = keyOr (findFirst (testI logFCRx) keys) (nthKey keys 1)"

definition fdrKeyOf :: "string list \<Rightarrow> string option" where
  "fdrKeyOf keys = keyOr (findFirst (testI fdrRx) keys) (nthKey keys (length keys - 1))"

definition cpmKeyOf :: "string list \<Rightarrow> string option" where
  "cpmKeyOf keys = findFirst (testI cpmRx) keys"

definition idKeyOf :: "string list \<Rightarrow> string option" where
  "idKeyOf keys = keyOr (findFirst (testI idRx) keys) (nthKey keys 0)"

text \<open>The state of the loop over the rows: the counts and the two lists of points.\<close>

record DgeAcc =
  accStats :: ComparisonStats
  sigPoints :: "Point list"
  nonSigPoints :: "Point list"

definition initAcc :: DgeAcc where
  "initAcc = \<lparr>accStats = zeroStats, sigPoints = [], nonSigPoints = []\<rparr>"

text \<open>The body of \<open>jsonData.forEach\<close>.\<close>

definition dgeRow ::
  "jsenv \<Rightarrow> string option \<Rightarrow> string option \<Rightarrow> string option \<Rightarrow> string option
     \<Rightarrow> DgeAcc \<Rightarrow> jsrow \<Rightarrow> DgeAcc" where
  "dgeRow J logFCKey fdrKey cpmKey idKey acc row =
     (let fc = parseFloat J (getProp row logFCKey);
          fdr = parseFloat J (getProp row fdrKey);
          cpm = (if keyTruthy cpmKey then parseFloat J (getProp row cpmKey) else Fin 0);
          label = toStr J (orElse (getProp row idKey) (JStr ''Unknown''))
      in if isNaN fc \<or> isNaN fdr then acc
         else
           let st = accStats acc;
               st1 = st\<lparr>cs_total := cs_total st + 1\<rparr>;
               st2 = (if js_less (Fin 0) fc then st1\<lparr>cs_up := cs_up st1 + 1\<rparr>
                      else if js_less fc (Fin 0) then st1\<lparr>cs_down := cs_down st1 + 1\<rparr>
                      else st1);
               isSig = (js_less fdr (Fin 0.05) \<and> js_less (Fin 1) (js_abs fc));
               st3 = (if isSig
                      then (let s = st2\<lparr>cs_sigTotal := cs_sigTotal st2 + 1\<rparr>
                            in if js_less (Fin 0) fc then s\<lparr>cs_sigUp := cs_sigUp s + 1\<rparr>
                               else s\<lparr>cs_sigDown := cs_sigDown s + 1\<rparr>)
                      else st2);
               negLogFdr = (if fdr = Fin 0 then Fin 50
                            else js_min (js_neg (js_log10 fdr)) (Fin 50));
               point = \<lparr>px = toFixed3 fc, py = toFixed3 negLogFdr,
                        pmaX = (if keyTruthy cpmKey then toFixed3 cpm else toFixed3 fc),
                        psig = isSig, plabel = label\<rparr>
           in if isSig then acc\<lparr>accStats := st3, sigPoints := sigPoints acc @ [point]\<rparr>
              else acc\<lparr>accStats := st3, nonSigPoints := nonSigPoints acc @ [point]\<rparr>)"

subsection \<open>Downsampling\<close>

text \<open>
  \<open>Array.prototype.sort\<close> with a comparator is stable. For a consistent comparator its
  result is the stable sort by that comparator, computed here by insertion (an element
  stays in front of a later one unless the comparator is positive; \<open>NaN\<close> counts as \<open>0\<close>).
  For a comparator that is not consistent the order is left to the engine, and the model
  does not follow it.
\<close>

fun insortBy :: "('a \<Rightarrow> 'a \<Rightarrow> jsnum) \<Rightarrow> 'a \<Rightarrow> 'a list \<Rightarrow> 'a list" where
  "insortBy cmp x [] = [x]"
| "insortBy cmp x (e # es) =
     (if js_less (Fin 0) (cmp x e) then e # insortBy cmp x es else x # e # es)"

definition sortBy :: "('a \<Rightarrow> 'a \<Rightarrow> jsnum) \<Rightarrow> 'a list \<Rightarrow> 'a list" where
  "sortBy cmp xs = foldr (insortBy cmp) xs []"

text \<open>\<open>(a, b) => b.y - a.y\<close>.\<close>

definition byDescY :: "Point \<Rightarrow> Point \<Rightarrow> jsnum" where
  "byDescY a b = js_sub (py b) (py a)"

text \<open>\<open>Math.max(1, Math.floor(nonSigPoints.length / slotsLeft))\<close>.\<close>

definition strideOf :: "nat \<Rightarrow> nat \<Rightarrow> nat" where
  "strideOf n slotsLeft = max 1 (n div slotsLeft)"

text \<open>The loop \<open>for (let i = 0; i < nonSigPoints.length; i += step)\<close> with its \<open>break\<close>.\<close>

function sampleLoop :: "Point list \<Rightarrow> nat \<Rightarrow> nat \<Rightarrow> Point list \<Rightarrow> Point list" where
  "sampleLoop nonSig slotsLeft i final =
     (if i < length nonSig
      then (if MAX_POINTS \<le> length final then final
            else sampleLoop nonSig slotsLeft (i + strideOf (length nonSig) slotsLeft)
                   (final @ [nonSig ! i]))
      else final)"
  by pat_completeness auto
termination
  by (relation "measure (\<lambda>(nonSig, slotsLeft, i, final). length nonSig - i)")
     (auto simp: strideOf_def)

declare sampleLoop.simps [simp del]

text \<open>\<open>finalPoints\<close> after the \<open>if\<close> on the number of significant points.\<close>

definition keptOf :: "Point list \<Rightarrow> Point list" where
  "keptOf sigPs =
     (if length sigPs \<le> SIG_LIMIT then sigPs else take SIG_LIMIT (sortBy byDescY sigPs))"

text \<open>
  \<open>finalPoints\<close> after the downsampling. \<open>slotsLeft\<close> is positive exactly when the
  truncated difference is.
\<close>

definition downsample :: "Point list \<Rightarrow> Point list \<Rightarrow> Point list" where
  "downsample sigPs nonSigPs =
     (let finalPoints = keptOf sigPs;
          slotsLeft = MAX_POINTS - length finalPoints
      in if 0 < slotsLeft \<and> nonSigPs \<noteq> []
         then sampleLoop nonSigPs slotsLeft 0 finalPoints
         else finalPoints)"

definition volcanoOf :: "Point \<Rightarrow> ChartPoint" where
  "volcanoOf p = \<lparr>cx = px p, cy = py p, csig = psig p, clabel = plabel p\<rparr>"

definition maOf :: "Point \<Rightarrow> ChartPoint" where
  "maOf p = \<lparr>cx = pmaX p, cy = px p, csig = psig p, clabel = plabel p\<rparr>"

subsection \<open>parseComparisonDGE\<close>

text \<open>
  The argument is the raw grid of the first sheet of the workbook, \<open>None\<close> when the
  workbook has no sheet.
\<close>

definition dgeOfJson :: "jsenv \<Rightarrow> jsrow list \<Rightarrow> DgeAcc" where
  "dgeOfJson J jsonData =
     (let keys = objKeys (hd jsonData)
      in foldl (dgeRow J (logFCKeyOf keys) (fdrKeyOf keys) (cpmKeyOf keys) (idKeyOf keys))
           initAcc jsonData)"

definition parseComparisonDGE :: "jsenv \<Rightarrow> grid option \<Rightarrow> DgeResult" where
  "parseComparisonDGE J sheet =
     (case sheet of
        None \<Rightarrow> emptyDge
      | Some rawData \<Rightarrow>
          let jsonData = smartSheetToJson J rawData dgeSheetKeywords
          in if jsonData = [] then emptyDge
             else
               let acc = dgeOfJson J jsonData;
                   finalPoints = downsample (sigPoints acc) (nonSigPoints acc)
               in \<lparr>sigCount = cs_sigTotal (accStats acc), dgeStats = accStats acc,
                   volcanoPoints = map volcanoOf finalPoints,
                   maPoints = map maOf finalPoints\<rparr>)"

section \<open>Enrichment extractor\<close>

record EnrichmentTerm =
  etTerm :: string
  etCount :: jsnum
  etPAdjust :: jsnum
  etCategory :: "string option"

definition enrichmentKeywords :: "string list" where
  "enrichmentKeywords = [''term'', ''description'', ''pathway'', ''id'',
     ''count'', ''significant'', ''n'',
     ''pvalue'', ''p-value'', ''p.adjust'', ''fdr'', ''qvalue'', ''q-value'']"

text \<open>
  \<^verbatim>\<open>let termKey = keys.find(k => /description/i.test(k));\<close>
  \<^verbatim>\<open>if (!termKey) termKey = keys.find(k => /term/i.test(k));\<close> and so on, down to \<open>keys[0]\<close>.
\<close>

definition termKeyOf :: "string list \<Rightarrow> string option" where
  "termKeyOf keys =
     keyOr (findFirst (testI (lit ''description'')) keys)
       (keyOr (findFirst (testI (lit ''term'')) keys)
          (keyOr (findFirst (testI (lit ''pathway'')) keys)
             (keyOr (findFirst (testI (lit ''id'')) keys)
                (nthKey keys 0))))"

text \<open>
  \<^verbatim>\<open>/^count/i\<close>, \<^verbatim>\<open>/significant/i\<close>, \<^verbatim>\<open>/^n$/i\<close>, \<^verbatim>\<open>/gene_?count/i\<close>; no fallback.
\<close>

definition geneCountRx :: rx where
  "geneCountRx = Seq (lit ''gene'') (Seq (Opt (Chr CHR ''_'')) (lit ''count''))"

definition countKeyOf :: "string list \<Rightarrow> string option" where
  "countKeyOf keys =
     keyOr (findFirst (testPrefixI (lit ''count'')) keys)
       (keyOr (findFirst (testI (lit ''significant'')) keys)
          (keyOr (findFirst (testFullI (lit ''n'')) keys)
             (findFirst (testI geneCountRx) keys)))"

text \<open>\<^verbatim>\<open>/ontology|category|namespace|type/i\<close> and \<^verbatim>\<open>/p[-_.]?val|p[-_.]?adj|fdr|q[-_.]?val/i\<close>.\<close>

definition catRx :: rx where
  "catRx = alts [lit ''ontology'', lit ''category'', lit ''namespace'', lit ''type'']"

definition pRx :: rx where
  "pRx = alts [Seq (Chr CHR ''p'') (Seq (Opt (Cls ''-_.'')) (lit ''val'')),
               Seq (Chr CHR ''p'') (Seq (Opt (Cls ''-_.'')) (lit ''adj'')),
               lit ''fdr'',
               Seq (Chr CHR ''q'') (Seq (Opt (Cls ''-_.'')) (lit ''val''))]"

definition catKeyOf :: "string list \<Rightarrow> string option" where
  "catKeyOf keys = findFirst (testI catRx) keys"

definition pKeyOf :: "string list \<Rightarrow> string option" where
  "pKeyOf keys = findFirst (testI pRx) keys"

text \<open>The record built for one row.\<close>

definition enrichRow ::
  "jsenv \<Rightarrow> string option \<Rightarrow> string option \<Rightarrow> string option \<Rightarrow> string option
     \<Rightarrow> jsrow \<Rightarrow> EnrichmentTerm" where
  "enrichRow J termKey countKey catKey pKey row =
     (let termV = orElse (getProp row termKey) (JStr ''Unknown'');
          count =
            (if keyTruthy countKey \<and> getProp row countKey \<noteq> Undefined
             then (let parsed = parseIntOf J (getProp row countKey)
                   in if \<not> isNaN parsed then parsed else Fin 0)
             else Fin 0);
          pVal =
            (if keyTruthy pKey \<and> getProp row pKey \<noteq> Undefined
             then (let parsed = parseFloat J (getProp row pKey)
                   in if \<not> isNaN parsed then parsed else Fin 0)
             else Fin 0);
          category = (if keyTruthy catKey then Some (toStr J (getProp row catKey)) else None)
      in \<lparr>etTerm = toStr J termV, etCount = count, etPAdjust = pVal, etCategory = category\<rparr>)"

definition parseEnrichment :: "jsenv \<Rightarrow> grid option \<Rightarrow> EnrichmentTerm list" where
  "parseEnrichment J sheet =
     (case sheet of
        None \<Rightarrow> []
      | Some rawData \<Rightarrow>
          let jsonData = smartSheetToJson J rawData enrichmentKeywords
          in if jsonData = [] then []
             else
               let keys = objKeys (hd jsonData)
               in map (enrichRow J (termKeyOf keys) (countKeyOf keys) (catKeyOf keys) (pKeyOf keys))
                    (take 50 jsonData))"

section \<open>Tables and annotation files\<close>

subsection \<open>parseTableData and parseDGESummary\<close>

text \<open>\<open>jsonData.filter(row => row.length > 0 && row.some(cell => !!cell))\<close>: \<open>some\<close> skips holes.\<close>

definition cellTruthy :: "cell \<Rightarrow> bool" where
  "cellTruthy c = (case c of None \<Rightarrow> False | Some v \<Rightarrow> truthy v)"

definition parseTableData :: "grid option \<Rightarrow> grid" where
  "parseTableData sheet =
     (case sheet of
        None \<Rightarrow> []
      | Some rawData \<Rightarrow> filter (\<lambda>row. row \<noteq> [] \<and> list_ex cellTruthy row) rawData)"

definition summaryKeywords :: "string list" where
  "summaryKeywords = [''comparison'', ''total'', ''up'', ''down'', ''sig'', ''regulated'']"

definition parseDGESummary :: "jsenv \<Rightarrow> grid option \<Rightarrow> jsrow list" where
  "parseDGESummary J sheet =
     (case sheet of
        None \<Rightarrow> []
      | Some rawData \<Rightarrow> smartSheetToJson J rawData summaryKeywords)"

subsection \<open>parseGTF\<close>

record TranscriptStat =
  tsName :: string
  tsCount :: nat
  tsTotalLen :: jsval
  tsMeanLen :: jsnum
  tsMaxLen :: jsnum

text \<open>\<open>String.prototype.split\<close> on a one-character separator.\<close>

fun splitOn :: "char \<Rightarrow> string \<Rightarrow> string list" where
  "splitOn c [] = [[]]"
| "splitOn c (x # xs) =
     (if x = c then [] # splitOn c xs
      else (case splitOn c xs of [] \<Rightarrow> [[x]] | w # ws \<Rightarrow> (x # w) # ws))"

text \<open>
  \<^verbatim>\<open>attributes.match(/transcript_id\s+"([^"]+)";/)\<close>: \<open>tidAt\<close> is the pattern at the start of
  a text and gives the captured identifier (after the white space only a quote can
  follow, and after the identifier only the closing quote, so the greedy runs are the
  only way to match); \<open>tidSearch\<close> tries the positions from the left.
\<close>

definition quoteChar :: char where
  "quoteChar = CHR 0x22"

definition tidAt :: "string \<Rightarrow> string option" where
  "tidAt s =
     (if startsWith s ''transcript_id''
      then
        (let r = drop 13 s
         in if takeWhile isSpace r = [] then None
            else
              (case dropWhile isSpace r of
                 [] \<Rightarrow> None
               | c # r3 \<Rightarrow>
                   if c = quoteChar
                   then
                     (let ident = takeWhile (\<lambda>x. x \<noteq> quoteChar) r3
                      in if ident = [] then None
                         else
                           (case dropWhile (\<lambda>x. x \<noteq> quoteChar) r3 of
                              q # semi # rest \<Rightarrow> if semi = CHR '';'' then Some ident else None
                            | _ \<Rightarrow> None))
                   else None))
      else None)"

fun tidSearch :: "string \<Rightarrow> string option" where
  "tidSearch [] = None"
| "tidSearch (c # cs) =
     (case tidAt (c # cs) of Some ident \<Rightarrow> Some ident | None \<Rightarrow> tidSearch cs)"

text \<open>
  \<open>transcriptLengths\<close> is a plain object whose prototype stays \<open>Object.prototype\<close>: only
  numbers and strings are assigned to it. \<open>transcriptLengths[id]\<close> reads the own property
  or else the inherited one, and the assignment to the name \<open>__proto__\<close> does nothing.
\<close>

definition lengthAt :: "jsval jsobj \<Rightarrow> string \<Rightarrow> jsval" where
  "lengthAt lengths ident =
     (case map_of lengths ident of Some v \<Rightarrow> v | None \<Rightarrow> inheritedProp ident)"

definition setLength :: "jsval jsobj \<Rightarrow> string \<Rightarrow> jsval \<Rightarrow> jsval jsobj" where
  "setLength lengths ident v = (if ident = ''__proto__'' then lengths else putOwn lengths ident v)"

text \<open>
  \<open>a + b\<close>: the concatenation of the printed operands when one of them is a string or an
  object (which prints to a string), the sum of the numbers otherwise.
\<close>

fun printsAsString :: "jsval \<Rightarrow> bool" where
  "printsAsString (JStr s) = True"
| "printsAsString ObjectPrototype = True"
| "printsAsString (Builtin n) = True"
| "printsAsString v = False"

definition jsPlus :: "jsenv \<Rightarrow> jsval \<Rightarrow> jsval \<Rightarrow> jsval" where
  "jsPlus J a b =
     (if printsAsString a \<or> printsAsString b then JStr (toStr J a @ toStr J b)
      else JNum (js_add (toNumber J a) (toNumber J b)))"

text \<open>
  \<^verbatim>\<open>if (!transcriptLengths[id]) transcriptLengths[id] = 0; transcriptLengths[id] += length;\<close>
\<close>

definition addLength :: "jsenv \<Rightarrow> jsval jsobj \<Rightarrow> string \<Rightarrow> jsnum \<Rightarrow> jsval jsobj" where
  "addLength J lengths ident len =
     (let lengths1 = (if \<not> truthy (lengthAt lengths ident)
                      then setLength lengths ident (JNum (Fin 0))
                      else lengths)
      in setLength lengths1 ident (jsPlus J (lengthAt lengths1 ident) (JNum len)))"

text \<open>The body of the loop over the lines.\<close>

definition gtfLine :: "jsenv \<Rightarrow> jsval jsobj \<Rightarrow> string \<Rightarrow> jsval jsobj" where
  "gtfLine J lengths line =
     (if line = [] \<or> startsWith line ''#'' then lengths
      else
        let parts = splitOn (CHR 0x09) line
        in if length parts < 9 then lengths
           else if parts ! 2 \<noteq> ''exon'' then lengths
           else
             let start = parseIntStr J (parts ! 3);
                 endPos = parseIntStr J (parts ! 4)
             in (case tidSearch (parts ! 8) of
                   None \<Rightarrow> lengths
                 | Some transcriptId \<Rightarrow>
                     addLength J lengths transcriptId (js_add (js_sub endPos start) (Fin 1))))"

text \<open>
  The argument is the name of the file and its text. \<open>Math.max(...lengths)\<close> is the fold of
  the binary maximum of the operands as numbers from \<open>-Infinity\<close>; the limit of the engine
  on the number of arguments of a call is not modelled.
\<close>

definition parseGTF :: "jsenv \<Rightarrow> string \<Rightarrow> string \<Rightarrow> TranscriptStat" where
  "parseGTF J name content =
     (let transcriptLengths = foldl (gtfLine J) [] (splitOn (CHR 0x0A) content);
          lengths = map snd transcriptLengths;
          count = length lengths
      in if count = 0
         then \<lparr>tsName = name, tsCount = 0, tsTotalLen = JNum (Fin 0), tsMeanLen = Fin 0,
               tsMaxLen = Fin 0\<rparr>
         else
           let totalLen = foldl (jsPlus J) (JNum (Fin 0)) lengths;
               maxLen = foldl js_max NegInf (map (toNumber J) lengths);
               meanLen = js_round (js_div (toNumber J totalLen) (Fin (real count)))
           in \<lparr>tsName = name, tsCount = count, tsTotalLen = totalLen, tsMeanLen = meanLen,
               tsMaxLen = maxLen\<rparr>)"

section \<open>The upload handler\<close>

subsection \<open>The state of the session\<close>

datatype Status = pending | success | error

record FileUploadStatus =
  fuId :: string
  fuName :: string
  fuType :: FileKind
  fuAssignedTo :: "string option"
  fuStatus :: Status
  fuMessage :: "string option"

record SummaryRow =
  srComp :: jsval
  srDesc :: jsval
  srTotal :: jsnum
  srDownTotal :: jsnum
  srUpTotal :: jsnum
  srSigDown :: jsnum
  srSigUp :: jsnum
  srSig :: jsnum

record ComparisonData =
  cdId :: string
  cdName :: string
  cdDescription :: jsval
  cdSigCount :: jsnum
  cdStats :: "ComparisonStats option"
  cdMaPoints :: "ChartPoint list"
  cdVolcanoPoints :: "ChartPoint list"
  cdGoTerms :: "EnrichmentTerm list"
  cdKeggPathways :: "EnrichmentTerm list"

text \<open>
  \<open>ProcessedData\<close> without its field \<open>deliverablesTree\<close>, which the upload handler neither
  reads nor writes.
\<close>

record ProcessedData =
  dataStatsTable :: grid
  mappingStatsTable :: grid
  transcriptStats :: "TranscriptStat list"
  dgeSummaryTable :: "SummaryRow list"
  comparisons :: "ComparisonData jsobj"

record ProjectStats =
  totalSamples :: nat
  totalDataGB :: real
  readLength :: string
  mappingRate :: string
  mergedTranscripts :: nat
  novelIsoforms :: nat

text \<open>
  The state the handler works on: \<open>processedData\<close>, \<open>stats\<close> and \<open>customTemplate\<close> are the
  session, \<open>uploadStatus\<close> the list of the files. The updates queued by the \<open>set...\<close>
  functions are applied in the order of the calls.
\<close>

record Session =
  processedData :: ProcessedData
  projectStats :: ProjectStats
  customTemplate :: "string option"

record AppState =
  uploadStatus :: "FileUploadStatus list"
  session :: Session

definition INITIAL_STATS :: ProjectStats where
  "INITIAL_STATS = \<lparr>totalSamples = 8, totalDataGB = 185.5, readLength = ''2 X 150 PE'',
     mappingRate = ''92.5%'', mergedTranscripts = 653846, novelIsoforms = 3096\<rparr>"

definition initialSession :: Session where
  "initialSession =
     \<lparr>processedData = \<lparr>dataStatsTable = [], mappingStatsTable = [], transcriptStats = [],
                         dgeSummaryTable = [], comparisons = []\<rparr>,
      projectStats = INITIAL_STATS, customTemplate = None\<rparr>"

definition initialState :: AppState where
  "initialState = \<lparr>uploadStatus = [], session = initialSession\<rparr>"

text \<open>
  An uploaded file: its name, what reading it as a workbook gives (\<open>Inl\<close> the message of
  the error that \<open>readFileAsArrayBuffer\<close> or \<open>XLSX.read\<close> throws, \<open>Inr\<close> the raw grid of the
  first sheet, if any), and its text.
\<close>

record UploadedFile =
  fileName :: string
  fileSheet :: "string + grid option"
  fileText :: string

subsection \<open>The summary file\<close>

text \<open>
  \<^verbatim>\<open>/comp/i\<close>, \<^verbatim>\<open>/desc/i\<close>, \<^verbatim>\<open>/total.*deg|total.*gene/i\<close>, \<^verbatim>\<open>/^total$/i\<close>, \<^verbatim>\<open>/sig.*down/i\<close>,
  \<^verbatim>\<open>/down.*sig/i\<close>, \<^verbatim>\<open>/sig.*up/i\<close>, \<^verbatim>\<open>/up.*sig/i\<close>, \<^verbatim>\<open>/total.*sig/i\<close>, \<^verbatim>\<open>/^sig/i\<close>, \<^verbatim>\<open>/#.*sig/i\<close>,
  \<^verbatim>\<open>/^down/i\<close>, \<^verbatim>\<open>/^up/i\<close>.
\<close>

definition thenLater :: "string \<Rightarrow> string \<Rightarrow> rx" where
  "thenLater a b = Seq (lit a) (Seq (Star Dot) (lit b))"

definition totalRx :: rx where
  "totalRx = Alt (thenLater ''total'' ''deg'') (thenLater ''total'' ''gene'')"

definition summaryRow :: "jsenv \<Rightarrow> jsrow \<Rightarrow> SummaryRow" where
  "summaryRow J r =
     (let keys = objKeys r;
          compKey = keyOr (findFirst (testI (lit ''comp'')) keys) (nthKey keys 0);
          descKey = findFirst (testI (lit ''desc'')) keys;
          totalKey = keyOr (findFirst (testI totalRx) keys)
                       (findFirst (testFullI (lit ''total'')) keys);
          sigDownKey = keyOr (findFirst (testI (thenLater ''sig'' ''down'')) keys)
                         (findFirst (testI (thenLater ''down'' ''sig'')) keys);
          sigUpKey = keyOr (findFirst (testI (thenLater ''sig'' ''up'')) keys)
                       (findFirst (testI (thenLater ''up'' ''sig'')) keys);
          sigTotalKey = keyOr (keyOr (findFirst (testI (thenLater ''total'' ''sig'')) keys)
                                 (findFirst (testPrefixI (lit ''sig'')) keys))
                          (findFirst (testI (thenLater ''#'' ''sig'')) keys);
          downFound = findFirst (testPrefixI (lit ''down'')) keys;
          downTotalKey = (if downFound = sigDownKey then None else downFound);
          upFound = findFirst (testPrefixI (lit ''up'')) keys;
          upTotalKey = (if upFound = sigUpKey then None else upFound);
          num = (\<lambda>k. toNumber J (orElse (getProp r k) (JNum (Fin 0))))
      in \<lparr>srComp = orElse (getProp r compKey) (JStr ''Unknown''),
          srDesc = (if keyTruthy descKey then getProp r descKey else JStr ''Test vs Control''),
          srTotal = num totalKey, srDownTotal = num downTotalKey, srUpTotal = num upTotalKey,
          srSigDown = num sigDownKey, srSigUp = num sigUpKey, srSig = num sigTotalKey\<rparr>)"

text \<open>\<^verbatim>\<open>String(row.comp).match(/\d+/)?.[0]\<close>: the first run of digits, empty when there is none.\<close>

definition firstDigits :: "string \<Rightarrow> string" where
  "firstDigits s = takeWhile isDigit (dropWhile (\<lambda>c. \<not> isDigit c) s)"

text \<open>
  The body of \<open>summary.forEach\<close> on \<open>nextComparisons\<close>. The key of a comparison begins
  with \<open>C\<close>, so it is no name of \<open>Object.prototype\<close>: the read finds an own property or
  nothing, and the write sets an own property.
\<close>

definition mergeSummaryRow ::
  "jsenv \<Rightarrow> ComparisonData jsobj \<Rightarrow> SummaryRow \<Rightarrow> ComparisonData jsobj" where
  "mergeSummaryRow J next row =
     (let rowNum = firstDigits (toStr J (srComp row))
      in if rowNum = [] then next
         else
           let targetId = ''C'' @ rowNum
           in (case map_of next targetId of
                 Some old \<Rightarrow>
                   putOwn next targetId
                     (old\<lparr>cdDescription := orElse (srDesc row) (cdDescription old)\<rparr>)
               | None \<Rightarrow>
                   putOwn next targetId
                     \<lparr>cdId = targetId, cdName = ''Comparison '' @ rowNum,
                      cdDescription = orElse (srDesc row) (JStr ''Test vs Control''),
                      cdSigCount = srSig row, cdStats = None, cdMaPoints = [],
                      cdVolcanoPoints = [], cdGoTerms = [], cdKeggPathways = []\<rparr>))"

definition applySummary :: "jsenv \<Rightarrow> jsrow list \<Rightarrow> ProcessedData \<Rightarrow> ProcessedData" where
  "applySummary J raw prev =
     (let summary = map (summaryRow J) raw
      in prev\<lparr>dgeSummaryTable := summary,
              comparisons := foldl (mergeSummaryRow J) (comparisons prev) summary\<rparr>)"

subsection \<open>The files of a comparison\<close>

text \<open>The first update: the record of the comparison is created unless it exists.\<close>

definition existingComparison :: "jsenv \<Rightarrow> string \<Rightarrow> ProcessedData \<Rightarrow> ComparisonData" where
  "existingComparison J compId prev =
     (let compNum = filter isDigit compId;
          defaultName = (if compNum \<noteq> [] then ''Comparison '' @ compNum else compId);
          found = (if dgeSummaryTable prev \<noteq> []
                   then findFirst
                          (\<lambda>row. includesStr (toStr J (srComp row)) compNum
                                 \<or> includesStr (toLowerCase (toStr J (srComp row)))
                                      (toLowerCase compId))
                          (dgeSummaryTable prev)
                   else None);
          defaultDesc = (case found of
                           Some row \<Rightarrow> if truthy (srDesc row) then srDesc row
                                       else JStr ''Test vs Control''
                         | None \<Rightarrow> JStr ''Test vs Control'')
      in (case map_of (comparisons prev) compId of
            Some c \<Rightarrow> c
          | None \<Rightarrow>
              \<lparr>cdId = compId, cdName = defaultName, cdDescription = defaultDesc,
               cdSigCount = Fin 0, cdStats = None, cdMaPoints = [], cdVolcanoPoints = [],
               cdGoTerms = [], cdKeggPathways = []\<rparr>))"

definition ensureComparison :: "jsenv \<Rightarrow> string \<Rightarrow> ProcessedData \<Rightarrow> ProcessedData" where
  "ensureComparison J compId prev =
     prev\<lparr>comparisons := putOwn (comparisons prev) compId (existingComparison J compId prev)\<rparr>"

text \<open>
  \<open>prev.comparisons[compId]\<close> in the later updates: the record the first update has put
  there.
\<close>

definition comparisonOf :: "jsenv \<Rightarrow> string \<Rightarrow> ProcessedData \<Rightarrow> ComparisonData" where
  "comparisonOf J compId prev = existingComparison J compId prev"

text \<open>
  \<open>(a, b) => a.comp.localeCompare(b.comp, undefined, {numeric: true})\<close>. A \<open>comp\<close> that is
  not a string has no \<open>localeCompare\<close>; the \<open>TypeError\<close> this raises inside the state update
  is outside the model, which compares the printed value.
\<close>

definition byComp :: "jsenv \<Rightarrow> SummaryRow \<Rightarrow> SummaryRow \<Rightarrow> jsnum" where
  "byComp J a b = localeCompareNumeric J (toStr J (srComp a)) (toStr J (srComp b))"

text \<open>\<open>findIndex\<close> and the replacement or the push of the new entry.\<close>

fun putSummary :: "string \<Rightarrow> SummaryRow \<Rightarrow> SummaryRow list \<Rightarrow> SummaryRow list" where
  "putSummary compId new [] = [new]"
| "putSummary compId new (row # rows) =
     (if srComp row = JStr compId then new # rows else row # putSummary compId new rows)"

definition applyDge :: "jsenv \<Rightarrow> string \<Rightarrow> DgeResult \<Rightarrow> ProcessedData \<Rightarrow> ProcessedData" where
  "applyDge J compId dgeData prev =
     (let updatedComp = (comparisonOf J compId prev)
            \<lparr>cdSigCount := Fin (real (sigCount dgeData)),
             cdStats := Some (dgeStats dgeData),
             cdMaPoints := maPoints dgeData,
             cdVolcanoPoints := volcanoPoints dgeData\<rparr>;
          st = dgeStats dgeData;
          newSummaryEntry =
            \<lparr>srComp = JStr compId, srDesc = cdDescription updatedComp,
             srTotal = Fin (real (cs_total st)), srDownTotal = Fin (real (cs_down st)),
             srUpTotal = Fin (real (cs_up st)), srSigDown = Fin (real (cs_sigDown st)),
             srSigUp = Fin (real (cs_sigUp st)), srSig = Fin (real (cs_sigTotal st))\<rparr>;
          newSummaryTable = sortBy (byComp J) (putSummary compId newSummaryEntry (dgeSummaryTable prev))
      in prev\<lparr>dgeSummaryTable := newSummaryTable,
              comparisons := putOwn (comparisons prev) compId updatedComp\<rparr>)"

definition applyGo :: "jsenv \<Rightarrow> string \<Rightarrow> EnrichmentTerm list \<Rightarrow> ProcessedData \<Rightarrow> ProcessedData" where
  "applyGo J compId goData prev =
     prev\<lparr>comparisons :=
            putOwn (comparisons prev) compId ((comparisonOf J compId prev)\<lparr>cdGoTerms := goData\<rparr>)\<rparr>"

definition applyKegg :: "jsenv \<Rightarrow> string \<Rightarrow> EnrichmentTerm list \<Rightarrow> ProcessedData \<Rightarrow> ProcessedData" where
  "applyKegg J compId keggData prev =
     prev\<lparr>comparisons :=
            putOwn (comparisons prev) compId
              ((comparisonOf J compId prev)\<lparr>cdKeggPathways := keggData\<rparr>)\<rparr>"

subsection \<open>handleSmartUpload\<close>

definition isComparisonKind :: "FileKind \<Rightarrow> bool" where
  "isComparisonKind k = (k = comparison_dge \<or> k = comparison_go \<or> k = comparison_kegg)"

text \<open>\<open>type.replace('comparison_', '').toUpperCase()\<close> for the three kinds.\<close>

definition kindTag :: "FileKind \<Rightarrow> string" where
  "kindTag k = (if k = comparison_dge then ''DGE'' else if k = comparison_go then ''GO''
                else if k = comparison_kegg then ''KEGG'' else [])"

definition missingIdMessage :: "FileKind \<Rightarrow> string" where
  "missingIdMessage k =
     ''Detected '' @ kindTag k
       @ '' file but missing Comparison ID (e.g. 'C1', 'Comp1') in filename.''"

definition onData :: "(ProcessedData \<Rightarrow> ProcessedData) \<Rightarrow> Session \<Rightarrow> Session" where
  "onData f s = s\<lparr>processedData := f (processedData s)\<rparr>"

text \<open>
  The body of the \<open>try\<close> from the test of the group id on: the session after it, and the
  message of the error it throws, if any.
\<close>

definition tryBody ::
  "jsenv \<Rightarrow> FileKind \<Rightarrow> string option \<Rightarrow> UploadedFile \<Rightarrow> Session \<Rightarrow> Session \<times> string option"
  where
  "tryBody J kind compId file s =
     (if isComparisonKind kind \<and> compId = None then (s, Some (missingIdMessage kind))
      else if kind = stats then
        (case fileSheet file of
           Inl e \<Rightarrow> (s, Some e)
         | Inr sheet \<Rightarrow> (onData (\<lambda>prev. prev\<lparr>dataStatsTable := parseTableData sheet\<rparr>) s, None))
      else if kind = mapping then
        (case fileSheet file of
           Inl e \<Rightarrow> (s, Some e)
         | Inr sheet \<Rightarrow> (onData (\<lambda>prev. prev\<lparr>mappingStatsTable := parseTableData sheet\<rparr>) s, None))
      else if kind = gtf_novel \<or> kind = gtf_merged then
        (let st = parseGTF J (fileName file) (fileText file);
             s1 = (if kind = gtf_novel
                   then s\<lparr>projectStats := (projectStats s)\<lparr>novelIsoforms := tsCount st\<rparr>\<rparr>
                   else s);
             s2 = (if kind = gtf_merged
                   then s1\<lparr>projectStats := (projectStats s1)\<lparr>mergedTranscripts := tsCount st\<rparr>\<rparr>
                   else s1)
         in (onData (\<lambda>prev. prev\<lparr>transcriptStats := transcriptStats prev @ [st]\<rparr>) s2, None))
      else if kind = dge_summary then
        (case fileSheet file of
           Inl e \<Rightarrow> (s, Some e)
         | Inr sheet \<Rightarrow> (onData (applySummary J (parseDGESummary J sheet)) s, None))
      else if kind = template then (s\<lparr>customTemplate := Some (fileText file)\<rparr>, None)
      else
        (case compId of
           Some cid \<Rightarrow>
             if isComparisonKind kind
             then
               (let s1 = onData (ensureComparison J cid) s
                in (case fileSheet file of
                      Inl e \<Rightarrow> (s1, Some e)
                    | Inr sheet \<Rightarrow>
                        if kind = comparison_dge
                        then (onData (applyDge J cid (parseComparisonDGE J sheet)) s1, None)
                        else if kind = comparison_go
                        then (onData (applyGo J cid (parseEnrichment J sheet)) s1, None)
                        else (onData (applyKegg J cid (parseEnrichment J sheet)) s1, None)))
             else (s, Some ''File processing logic error.'')
         | None \<Rightarrow> (s, Some ''File processing logic error.'')))"

text \<open>\<open>prev.map(s => s.id === fileId ? {...s, ...} : s)\<close> for the three updates of a status.\<close>

definition markSuccess :: "string \<Rightarrow> FileUploadStatus list \<Rightarrow> FileUploadStatus list" where
  "markSuccess fileId prev = map (\<lambda>s. if fuId s = fileId then s\<lparr>fuStatus := success\<rparr> else s) prev"

definition markUnknown :: "string \<Rightarrow> FileUploadStatus list \<Rightarrow> FileUploadStatus list" where
  "markUnknown fileId prev =
     map (\<lambda>s. if fuId s = fileId
              then s\<lparr>fuStatus := success, fuType := deliverable_only,
                     fuMessage := Some ''Type unknown, added to tree only''\<rparr>
              else s) prev"

text \<open>\<open>message: error.message || 'Parsing failed'\<close>.\<close>

definition markError :: "string \<Rightarrow> string \<Rightarrow> FileUploadStatus list \<Rightarrow> FileUploadStatus list" where
  "markError fileId msg prev =
     map (\<lambda>s. if fuId s = fileId
              then s\<lparr>fuStatus := error,
                     fuMessage := Some (if msg \<noteq> [] then msg else ''Parsing failed'')\<rparr>
              else s) prev"

text \<open>
  One turn of the loop over the files; \<open>fileId\<close> is the identifier drawn for the file from
  \<open>Math.random\<close>.
\<close>

definition handleFile :: "jsenv \<Rightarrow> string \<Rightarrow> UploadedFile \<Rightarrow> AppState \<Rightarrow> AppState" where
  "handleFile J fileId file st =
     (let kind = detectFileType (fileName file);
          compId = detectComparisonId (fileName file);
          newStatus = \<lparr>fuId = fileId, fuName = fileName file, fuType = kind,
                       fuAssignedTo = compId, fuStatus = pending, fuMessage = None\<rparr>;
          st0 = st\<lparr>uploadStatus := uploadStatus st @ [newStatus]\<rparr>
      in if kind = unknown then st0\<lparr>uploadStatus := markUnknown fileId (uploadStatus st0)\<rparr>
         else if kind = deliverable_only
         then st0\<lparr>uploadStatus := markSuccess fileId (uploadStatus st0)\<rparr>
         else
           (case tryBody J kind compId file (session st0) of
              (s1, None) \<Rightarrow> \<lparr>uploadStatus = markSuccess fileId (uploadStatus st0), session = s1\<rparr>
            | (s1, Some msg) \<Rightarrow>
                \<lparr>uploadStatus = markError fileId msg (uploadStatus st0), session = s1\<rparr>))"

text \<open>
  The handler on the list of the selected files (\<open>None\<close> when the input has no list), with
  the identifiers drawn for them.
\<close>

fun handleFiles :: "jsenv \<Rightarrow> string list \<Rightarrow> UploadedFile list \<Rightarrow> AppState \<Rightarrow> AppState" where
  "handleFiles J (i # ids) (f # files) st = handleFiles J ids files (handleFile J i f st)"
| "handleFiles J ids files st = st"

definition handleSmartUpload ::
  "jsenv \<Rightarrow> string list \<Rightarrow> UploadedFile list option \<Rightarrow> AppState \<Rightarrow> AppState" where
  "handleSmartUpload J ids files st =
     (case files of None \<Rightarrow> st | Some fs \<Rightarrow> handleFiles J ids fs st)"

section \<open>Worked examples\<close>

text \<open>
  The conversions of the examples. They agree with the engine on the natural numbers
  below \<open>10^21\<close> (printed in decimal), on the strings of digits (parsed as that number) and
  on the strings that begin with a letter, the word \<open>Infinity\<close> apart (not a number). The
  statements about the examples depend on the conversions at such arguments only, and on
  no comparison of two strings.
\<close>

definition digitChar :: "nat \<Rightarrow> char" where
  "digitChar d = ''0123456789'' ! d"

fun digitsOf :: "nat \<Rightarrow> string" where
  "digitsOf n = (if n < 10 then [digitChar n] else digitsOf (n div 10) @ [digitChar (n mod 10)])"

declare digitsOf.simps [simp del]

definition exampleNumToString :: "real \<Rightarrow> string" where
  "exampleNumToString x = (if 0 \<le> x \<and> x = of_int \<lfloor>x\<rfloor> then digitsOf (nat \<lfloor>x\<rfloor>) else [])"

definition exampleParse :: "string \<Rightarrow> jsnum" where
  "exampleParse s = (if s \<noteq> [] \<and> list_all isDigit s then Fin (real (digitsToNat s)) else NaN)"

definition exampleFunctionText :: "string \<Rightarrow> string" where
  "exampleFunctionText n = ''function '' @ n @ ''() { [native code] }''"

definition exampleEnv :: jsenv where
  "exampleEnv = \<lparr>numToString = exampleNumToString, functionText = exampleFunctionText,
     parseFloatStr = exampleParse, parseIntStr = exampleParse, strToNumber = exampleParse,
     localeCompareNumeric = (\<lambda>a b. Fin 0)\<rparr>"

text \<open>A comparison sheet: a title row, the header row, four data rows.\<close>

definition exampleSheet :: grid where
  "exampleSheet =
     [[Some (JStr ''Results of run A'')],
      [Some (JStr ''Gene''), Some (JStr ''logFC''), Some (JStr ''FDR'')],
      [Some (JStr ''g1''), Some (JNum (Fin 2.5)), Some (JNum (Fin 0.01))],
      [Some (JStr ''g2''), Some (JStr ''n/a''), Some (JNum (Fin 0.2))],
      [Some (JStr ''g3''), Some (JNum (Fin (- 3))), Some (JNum (Fin 0))],
      [Some (JStr ''g4''), Some (JNum (Fin 0)), Some (JNum (Fin 0.5))]]"

text \<open>
  A sheet whose header row names two columns \<open>FDR\<close>, the second with a blank in front and
  a no-break space behind.
\<close>

definition duplicateSheet :: grid where
  "duplicateSheet =
     [[Some (JStr ''Gene''), Some (JStr ''FDR''), Some (JStr ('' FDR'' @ [CHR 0xA0]))],
      [Some (JStr ''g1''), Some (JNum (Fin 0.5)), Some (JNum (Fin 0.01))]]"

text \<open>A sheet whose header row names two columns \<open>__proto__\<close>.\<close>

definition protoSheet :: grid where
  "protoSheet =
     [[Some (JStr ''__proto__''), Some (JStr (''__proto__'' @ [CHR 0xA0]))],
      [Some (JStr ''a''), Some (JStr ''b'')]]"

text \<open>
  A comparison sheet without a fold-change header, whose first two columns bear the same
  name.
\<close>

definition foldSheet :: grid where
  "foldSheet =
     [[Some (JStr ''Gene''), Some (JStr ''Gene''), Some (JStr ''PValue'')],
      [Some (JStr ''g1''), Some (JNum (Fin 2.5)), Some (JNum (Fin 0.01))]]"

text \<open>A comparison sheet with the columns \<open>Gene\<close>, \<open>Score\<close> and \<open>PValue\<close>.\<close>

definition plainSheet :: grid where
  "plainSheet =
     [[Some (JStr ''Gene''), Some (JStr ''Score''), Some (JStr ''PValue'')],
      [Some (JStr ''g1''), Some (JNum (Fin 2.5)), Some (JNum (Fin 0.01))],
      [Some (JStr ''g2''), Some (JStr ''n/a''), Some (JNum (Fin 0.2))]]"

text \<open>An enrichment sheet with the columns \<open>Term\<close>, \<open>Significant\<close> and \<open>Counts\<close>.\<close>

definition enrichSheet :: grid where
  "enrichSheet =
     [[Some (JStr ''Term''), Some (JStr ''Significant''), Some (JStr ''Counts'')],
      [Some (JStr ''cell cycle''), Some (JNum (Fin 12)), Some (JNum (Fin 40))]]"










section \<open>Predicates of the specification\<close>

subsection \<open>A row that qualifies as header\<close>

text \<open>
  The lower-cased joined cells of the row contain at least one expected keyword as a
  substring.
\<close>

definition qualifies :: "jsenv \<Rightarrow> string list \<Rightarrow> cell list \<Rightarrow> bool" where
  "qualifies J keywords row = (\<exists>k\<in>set keywords. includesStr (rowStr J row) (toLowerCase k))"

subsection \<open>Row objects that agree\<close>

text \<open>
  Two rows that agree under every column not named \<open>name\<close> give row objects with the same
  prototype and the same keys, which agree on every property but \<open>name\<close>.
\<close>

definition agreeOff :: "string \<Rightarrow> jsrow \<Rightarrow> jsrow \<Rightarrow> bool" where
  "agreeOff name a b =
     (protoNull a = protoNull b
      \<and> map fst (ownProps a) = map fst (ownProps b)
      \<and> (\<forall>k. k \<noteq> name \<longrightarrow> map_of (ownProps a) k = map_of (ownProps b) k))"

subsection \<open>Rows of a comparison sheet\<close>

text \<open>The fold change and the FDR of the row both parse as numbers.\<close>

definition rowParses :: "jsenv \<Rightarrow> string option \<Rightarrow> string option \<Rightarrow> jsrow \<Rightarrow> bool" where
  "rowParses J logFCKey fdrKey row =
     (\<not> isNaN (parseFloat J (getProp row logFCKey)) \<and> \<not> isNaN (parseFloat J (getProp row fdrKey)))"


subsection \<open>Points\<close>






text \<open>The significant points are in the first list, the others in the second.\<close>

definition pointsInv :: "jsenv \<Rightarrow> DgeAcc \<Rightarrow> bool" where
  "pointsInv J acc = ((\<forall>p\<in>set (sigPoints acc). psig p) \<and> (\<forall>p\<in>set (nonSigPoints acc). \<not> psig p))"

subsection \<open>The pattern of the group id, as a predicate\<close>

text \<open>
  \<open>isGroupMatch t ds\<close>: the text \<open>t\<close> begins with a match of
  \<^verbatim>\<open>(Comparison|Comp|C|Contrast|Group|G)\s*[-_]?\s*(\d+)\<close>, letters in either case, whose
  digit run, taken whole, is \<open>ds\<close>.
\<close>

definition isGroupMatch :: "string \<Rightarrow> string \<Rightarrow> bool" where
  "isGroupMatch t ds =
     (\<exists>w ws1 sep ws2 rest.
        t = w @ ws1 @ sep @ ws2 @ ds @ rest
        \<and> toLowerCase w \<in> set groupWords
        \<and> list_all isSpace ws1
        \<and> (sep = [] \<or> sep = ''-'' \<or> sep = ''_'')
        \<and> list_all isSpace ws2
        \<and> ds \<noteq> [] \<and> list_all isDigit ds
        \<and> (rest = [] \<or> \<not> isDigit (hd rest)))"

text \<open>The characters that can follow the word in a match.\<close>

definition sepStartChars :: "char list" where
  "sepStartChars =
     [CHR '' '', CHR 0x09, CHR 0x0A, CHR 0x0B, CHR 0x0C, CHR 0x0D, CHR 0xA0, CHR ''-'', CHR ''_'']
     @ ''0123456789''"

text \<open>
  The pattern as the specification words it, \<^verbatim>\<open>(Comparison|Comp|C|Contrast|Group|G)[-_]?digits\<close>,
  and the instance of it with the digit \<open>7\<close>; both are tested case-insensitively.
\<close>

definition specIdPattern :: rx where
  "specIdPattern =
     Seq (alts (map lit groupWords))
       (Seq (Opt (Cls ''-_'')) (Seq (Cls ''0123456789'') (Star (Cls ''0123456789''))))"

definition specIdPattern7 :: rx where
  "specIdPattern7 = Seq (alts (map lit groupWords)) (Seq (Opt (Cls ''-_'')) (Chr CHR ''7''))"

section \<open>Verification: file classification\<close>

subsection \<open>detectComparisonId\<close>


lemma startsWith_iff: "startsWith s k \<longleftrightarrow> take (length k) s = k"
  by (induction s k rule: startsWith.induct) auto

lemma digit_not_space: "isDigit c \<Longrightarrow> \<not> isSpace c"
  by (auto simp: isDigit_def isSpace_def)

lemma digit_not_sep: "isDigit c \<Longrightarrow> c \<noteq> CHR ''-'' \<and> c \<noteq> CHR ''_''"
  by (auto simp: isDigit_def)

lemma sep_not_space: "\<not> isSpace CHR ''-''" "\<not> isSpace CHR ''_''"
  by (simp_all add: isSpace_def)

lemma dropWhile_all: "list_all p xs \<Longrightarrow> (ys = [] \<or> \<not> p (hd ys)) \<Longrightarrow> dropWhile p (xs @ ys) = ys"
  by (induction xs) (auto simp: dropWhile_eq_self_iff)

lemma takeWhile_all: "list_all p xs \<Longrightarrow> (ys = [] \<or> \<not> p (hd ys)) \<Longrightarrow> takeWhile p (xs @ ys) = xs"
  by (induction xs) (auto simp: takeWhile_eq_Nil_iff)

lemma idTail_complete:
  assumes "list_all isSpace ws1" "sep = [] \<or> sep = ''-'' \<or> sep = ''_''" "list_all isSpace ws2"
    "ds \<noteq> []" "list_all isDigit ds" "rest = [] \<or> \<not> isDigit (hd rest)"
  shows "idTail (ws1 @ sep @ ws2 @ ds @ rest) = Some ds"
proof -
  obtain d ds' where ds: "ds = d # ds'" using assms(4) by (cases ds) auto
  have d: "isDigit d" using assms(5) ds by simp
  have t3: "dropWhile isSpace (ws2 @ ds @ rest) = ds @ rest"
    using dropWhile_all[OF assms(3), of "ds @ rest"] ds d digit_not_space by simp
  have tk: "takeWhile isDigit (ds @ rest) = ds"
    using takeWhile_all[OF assms(5) assms(6)] .
  show ?thesis
  proof (cases "sep = []")
    case True
    have "dropWhile isSpace (ws1 @ ws2 @ ds @ rest) = ds @ rest"
      using dropWhile_all[of isSpace "ws1 @ ws2" "ds @ rest"] assms(1,3) ds d digit_not_space
      by simp
    then show ?thesis
      using True ds d digit_not_sep[OF d] digit_not_space[OF d] tk assms(4)
      by (simp add: idTail_def Let_def)
  next
    case False
    then obtain s where s: "sep = [s]" "s = CHR ''-'' \<or> s = CHR ''_''" using assms(2) by auto
    have "dropWhile isSpace (ws1 @ sep @ ws2 @ ds @ rest) = sep @ ws2 @ ds @ rest"
      using dropWhile_all[OF assms(1), of "sep @ ws2 @ ds @ rest"] s sep_not_space by auto
    then show ?thesis
      using s t3 tk assms(4) by (auto simp: idTail_def Let_def)
  qed
qed

lemma idTail_sound:
  assumes "idTail t = Some ds"
  shows "\<exists>ws1 sep ws2 rest. t = ws1 @ sep @ ws2 @ ds @ rest \<and> list_all isSpace ws1
     \<and> (sep = [] \<or> sep = ''-'' \<or> sep = ''_'') \<and> list_all isSpace ws2
     \<and> ds \<noteq> [] \<and> list_all isDigit ds \<and> (rest = [] \<or> \<not> isDigit (hd rest))"
proof -
  define t1 where "t1 = dropWhile isSpace t"
  define t2 where "t2 = (case t1 of [] \<Rightarrow> t1
                | c # r \<Rightarrow> if c = CHR ''-'' \<or> c = CHR ''_'' then r else t1)"
  define t3 where "t3 = dropWhile isSpace t2"
  define sep where "sep = (case t1 of [] \<Rightarrow> []
                | c # r \<Rightarrow> if c = CHR ''-'' \<or> c = CHR ''_'' then [c] else [])"
  have ds: "ds = takeWhile isDigit t3" "ds \<noteq> []"
    using assms unfolding idTail_def Let_def t1_def[symmetric] t2_def[symmetric] t3_def[symmetric]
    by (auto split: if_splits)
  have a: "t = takeWhile isSpace t @ t1" by (simp add: t1_def)
  have b: "t1 = sep @ t2" by (auto simp: sep_def t2_def split: list.splits)
  have c: "t2 = takeWhile isSpace t2 @ t3" by (simp add: t3_def)
  have d: "t3 = ds @ dropWhile isDigit t3" by (simp add: ds)
  have e: "dropWhile isDigit t3 = [] \<or> \<not> isDigit (hd (dropWhile isDigit t3))"
    using hd_dropWhile[of isDigit t3] by blast
  have f: "sep = [] \<or> sep = ''-'' \<or> sep = ''_''"
    by (auto simp: sep_def split: list.splits)
  have g: "list_all isSpace (takeWhile isSpace t)" "list_all isSpace (takeWhile isSpace t2)"
      "list_all isDigit ds"
    unfolding ds by (auto simp: list_all_iff dest: set_takeWhileD)
  have "t = takeWhile isSpace t @ sep @ takeWhile isSpace t2 @ ds @ dropWhile isDigit t3"
    using a b c d by metis
  then show ?thesis using e f g ds(2) by blast
qed

lemma idTail_Some_start: "idTail t = Some ds \<Longrightarrow> t \<noteq> [] \<and> hd t \<in> set sepStartChars"
proof -
  assume "idTail t = Some ds"
  from idTail_sound[OF this] obtain ws1 sep ws2 rest where
    t: "t = ws1 @ sep @ ws2 @ ds @ rest" and w1: "list_all isSpace ws1"
    and sep: "sep = [] \<or> sep = ''-'' \<or> sep = ''_''" and w2: "list_all isSpace ws2"
    and ds: "ds \<noteq> []" "list_all isDigit ds" by blast
  have sp: "isSpace c \<Longrightarrow> c \<in> set sepStartChars" for c
    by (auto simp: isSpace_def sepStartChars_def)
  have dg: "isDigit c \<Longrightarrow> c \<in> set sepStartChars" for c
    by (auto simp: isDigit_def sepStartChars_def)
  have "t \<noteq> []" using t ds by simp
  moreover have "hd t \<in> set sepStartChars"
  proof (cases ws1)
    case (Cons a as) then show ?thesis using t w1 sp by simp
  next
    case Nil
    show ?thesis
    proof (cases "sep = []")
      case False then show ?thesis using t Nil sep by (auto simp: sepStartChars_def)
    next
      case True
      show ?thesis
      proof (cases ws2)
        case (Cons a as) then show ?thesis using t Nil True w2 sp by simp
      next
        case Nil2: Nil
        then show ?thesis using t Nil True ds dg by (cases ds) auto
      qed
    qed
  qed
  ultimately show ?thesis by simp
qed

lemma sepStart_lower_all: "list_all (\<lambda>c. lowerChar c = c) sepStartChars"
  by code_simp

lemma words_no_sep_all: "list_all (\<lambda>w. list_all (\<lambda>c. c \<notin> set sepStartChars) w) groupWords"
  by code_simp


lemma firstWord_Some:
  "firstWord ws t = Some ds \<Longrightarrow>
     \<exists>w\<in>set ws. startsWith (toLowerCase t) w \<and> idTail (drop (length w) t) = Some ds"
  by (induction ws) (auto split: if_splits option.splits)

lemma firstWord_None:
  "firstWord ws t = None \<longleftrightarrow>
     (\<forall>w\<in>set ws. startsWith (toLowerCase t) w \<longrightarrow> idTail (drop (length w) t) = None)"
  by (induction ws) (auto split: if_splits option.splits)

lemma word_shorter:
  assumes v: "v \<in> set groupWords" and w: "w \<in> set groupWords"
    and sv: "startsWith (toLowerCase t) v" and sw: "startsWith (toLowerCase t) w"
    and iv: "idTail (drop (length v) t) = Some a"
  shows "length w \<le> length v"
proof (rule ccontr)
  assume "\<not> length w \<le> length v"
  then have lt: "length v < length w" by simp
  have wl: "take (length w) (toLowerCase t) = w" using sw by (simp add: startsWith_iff)
  then have "length (take (length w) (toLowerCase t)) = length w" by simp
  then have lw: "length w \<le> length t" by (simp add: toLowerCase_def)
  from idTail_Some_start[OF iv] have ne: "drop (length v) t \<noteq> []"
    and hd: "hd (drop (length v) t) \<in> set sepStartChars" by auto
  have hdn: "hd (drop (length v) t) = t ! length v"
    using ne by (simp add: hd_drop_conv_nth)
  have low: "lowerChar (t ! length v) = t ! length v"
    using sepStart_lower_all hd hdn by (simp add: list_all_iff)
  have "w ! length v = toLowerCase t ! length v"
    using nth_take[of "length v" "length w" "toLowerCase t"] wl lt by simp
  also have "\<dots> = t ! length v" using low lt lw by (simp add: toLowerCase_def)
  finally have "t ! length v \<in> set w" using nth_mem[of "length v" w] lt by simp
  then show False using words_no_sep_all w hd hdn by (auto simp: list_all_iff)
qed

lemma word_unique:
  assumes "v \<in> set groupWords" "w \<in> set groupWords"
    "startsWith (toLowerCase t) v" "startsWith (toLowerCase t) w"
    "idTail (drop (length v) t) = Some a" "idTail (drop (length w) t) = Some b"
  shows "v = w"
proof -
  have "length v = length w"
    using word_shorter[OF assms(1,2,3,4,5)] word_shorter[OF assms(2,1,4,3,6)] by simp
  then show ?thesis using assms(3,4) by (simp add: startsWith_iff)
qed

lemma isGroupMatch_firstWord: "isGroupMatch t ds \<longleftrightarrow> firstWord groupWords t = Some ds"
proof
  assume "isGroupMatch t ds"
  then obtain w' ws1 sep ws2 rest where
    t: "t = w' @ ws1 @ sep @ ws2 @ ds @ rest" and w': "toLowerCase w' \<in> set groupWords"
    and c: "list_all isSpace ws1" "sep = [] \<or> sep = ''-'' \<or> sep = ''_''" "list_all isSpace ws2"
      "ds \<noteq> []" "list_all isDigit ds" "rest = [] \<or> \<not> isDigit (hd rest)"
    unfolding isGroupMatch_def by blast
  define w where "w = toLowerCase w'"
  have lw: "length w = length w'" by (simp add: w_def toLowerCase_def)
  have sw: "startsWith (toLowerCase t) w"
    by (simp add: startsWith_iff t w_def toLowerCase_def)
  have iw: "idTail (drop (length w) t) = Some ds"
    using idTail_complete[OF c] by (simp add: lw t)
  have "firstWord groupWords t \<noteq> None"
    using w' sw iw unfolding firstWord_None w_def[symmetric] by auto
  then obtain ds' where f: "firstWord groupWords t = Some ds'" by auto
  from firstWord_Some[OF f] obtain v where v: "v \<in> set groupWords"
    "startsWith (toLowerCase t) v" "idTail (drop (length v) t) = Some ds'" by blast
  have "v = w" using word_unique[OF v(1) _ v(2) sw v(3) iw] w' w_def by simp
  then show "firstWord groupWords t = Some ds" using f v(3) iw by simp
next
  assume "firstWord groupWords t = Some ds"
  from firstWord_Some[OF this] obtain w where w: "w \<in> set groupWords"
    "startsWith (toLowerCase t) w" "idTail (drop (length w) t) = Some ds" by blast
  from idTail_sound[OF w(3)] obtain ws1 sep ws2 rest where
    d: "drop (length w) t = ws1 @ sep @ ws2 @ ds @ rest" and c: "list_all isSpace ws1"
      "sep = [] \<or> sep = ''-'' \<or> sep = ''_''" "list_all isSpace ws2"
      "ds \<noteq> []" "list_all isDigit ds" "rest = [] \<or> \<not> isDigit (hd rest)" by blast
  have "toLowerCase (take (length w) t) = w"
    using w(2) by (simp add: startsWith_iff toLowerCase_def take_map)
  then have lw: "toLowerCase (take (length w) t) \<in> set groupWords"
    using w(1) by simp
  have "take (length w) t @ drop (length w) t = t" by (rule append_take_drop_id)
  then have eq: "t = take (length w) t @ ws1 @ sep @ ws2 @ ds @ rest"
    unfolding d by (rule sym)
  show "isGroupMatch t ds"
    unfolding isGroupMatch_def
    by (rule exI[of _ "take (length w) t"], rule exI[of _ ws1], rule exI[of _ sep],
        rule exI[of _ ws2], rule exI[of _ rest]) (intro conjI eq lw c)
qed

lemma firstWord_Nil: "firstWord groupWords [] = None"
  by (simp add: groupWords_def toLowerCase_def)

lemma idSearch_Some:
  "idSearch f = Some ds \<longleftrightarrow>
     (\<exists>pre t. f = pre @ t \<and> firstWord groupWords t = Some ds
        \<and> (\<forall>pre' t'. f = pre' @ t' \<and> length pre' < length pre
              \<longrightarrow> firstWord groupWords t' = None))"
proof (induction f)
  case Nil
  then show ?case by (simp add: firstWord_Nil)
next
  case (Cons c cs)
  show ?case
  proof (cases "firstWord groupWords (c # cs)")
    case (Some d)
    show ?thesis
    proof
      assume "idSearch (c # cs) = Some ds"
      then have "d = ds" using Some by simp
      then show "\<exists>pre t. c # cs = pre @ t \<and> firstWord groupWords t = Some ds
        \<and> (\<forall>pre' t'. c # cs = pre' @ t' \<and> length pre' < length pre
              \<longrightarrow> firstWord groupWords t' = None)"
        using Some by (intro exI[of _ "[]"] exI[of _ "c # cs"]) simp
    next
      assume "\<exists>pre t. c # cs = pre @ t \<and> firstWord groupWords t = Some ds
        \<and> (\<forall>pre' t'. c # cs = pre' @ t' \<and> length pre' < length pre
              \<longrightarrow> firstWord groupWords t' = None)"
      then obtain pre t where p: "c # cs = pre @ t" "firstWord groupWords t = Some ds"
        "\<forall>pre' t'. c # cs = pre' @ t' \<and> length pre' < length pre
              \<longrightarrow> firstWord groupWords t' = None" by blast
      have "pre = []"
      proof (rule ccontr)
        assume "pre \<noteq> []"
        then have "firstWord groupWords (c # cs) = None" using p(3)[rule_format, of "[]" "c # cs"] by simp
        then show False using Some by simp
      qed
      then have "t = c # cs" using p(1) by simp
      then have "d = ds" using p(2) Some by simp
      then show "idSearch (c # cs) = Some ds" using Some by simp
    qed
  next
    case None
    have "idSearch (c # cs) = idSearch cs" using None by simp
    moreover have "(\<exists>pre t. c # cs = pre @ t \<and> firstWord groupWords t = Some ds
        \<and> (\<forall>pre' t'. c # cs = pre' @ t' \<and> length pre' < length pre
              \<longrightarrow> firstWord groupWords t' = None))
      \<longleftrightarrow> (\<exists>pre t. cs = pre @ t \<and> firstWord groupWords t = Some ds
        \<and> (\<forall>pre' t'. cs = pre' @ t' \<and> length pre' < length pre
              \<longrightarrow> firstWord groupWords t' = None))" (is "?L \<longleftrightarrow> ?R")
    proof
      assume ?L
      then obtain pre t where p: "c # cs = pre @ t" "firstWord groupWords t = Some ds"
        "\<forall>pre' t'. c # cs = pre' @ t' \<and> length pre' < length pre
              \<longrightarrow> firstWord groupWords t' = None" by blast
      have "pre \<noteq> []" using p None by auto
      then obtain pre2 where pre2: "pre = c # pre2" "cs = pre2 @ t"
        using p(1) by (cases pre) auto
      have "\<forall>pre' t'. cs = pre' @ t' \<and> length pre' < length pre2
              \<longrightarrow> firstWord groupWords t' = None"
      proof (intro allI impI)
        fix pre' t' assume "cs = pre' @ t' \<and> length pre' < length pre2"
        then show "firstWord groupWords t' = None"
          using p(3)[rule_format, of "c # pre'" t'] pre2 by simp
      qed
      then show ?R using pre2 p(2) by blast
    next
      assume ?R
      then obtain pre t where p: "cs = pre @ t" "firstWord groupWords t = Some ds"
        "\<forall>pre' t'. cs = pre' @ t' \<and> length pre' < length pre
              \<longrightarrow> firstWord groupWords t' = None" by blast
      have "\<forall>pre' t'. c # cs = pre' @ t' \<and> length pre' < length (c # pre)
              \<longrightarrow> firstWord groupWords t' = None"
      proof (intro allI impI)
        fix pre' t' assume a: "c # cs = pre' @ t' \<and> length pre' < length (c # pre)"
        show "firstWord groupWords t' = None"
        proof (cases pre')
          case Nil then show ?thesis using a None by simp
        next
          case (Cons x xs)
          then show ?thesis using a p(3)[rule_format, of xs t'] by simp
        qed
      qed
      then show ?L using p(1,2) by (intro exI[of _ "c # pre"] exI[of _ t]) simp
    qed
    ultimately show ?thesis using Cons.IH by simp
  qed
qed

lemma leftmost_iff:
  "(\<forall>pre' t'. f = pre' @ t' \<and> length pre' < length (pre::string) \<longrightarrow> firstWord groupWords t' = None)
     \<longleftrightarrow> (\<forall>pre' t' ds'. f = pre' @ t' \<and> isGroupMatch t' ds' \<longrightarrow> length pre \<le> length pre')"
  (is "?A \<longleftrightarrow> ?B")
proof
  assume a: ?A
  show ?B
  proof (intro allI impI)
    fix pre' t' ds' assume h: "f = pre' @ t' \<and> isGroupMatch t' ds'"
    show "length pre \<le> length pre'"
    proof (rule ccontr)
      assume "\<not> length pre \<le> length pre'"
      then have "firstWord groupWords t' = None" using a[rule_format, of pre' t'] h by simp
      then show False using h by (simp add: isGroupMatch_firstWord)
    qed
  qed
next
  assume b: ?B
  show ?A
  proof (intro allI impI)
    fix pre' t' assume h: "f = pre' @ t' \<and> length pre' < length pre"
    show "firstWord groupWords t' = None"
    proof (cases "firstWord groupWords t'")
      case (Some d)
      then have "isGroupMatch t' d" by (simp add: isGroupMatch_firstWord)
      then have "length pre \<le> length pre'" using b h by blast
      then show ?thesis using h by simp
    qed simp
  qed
qed

lemma idSearch_match:
  "idSearch f = Some ds \<longleftrightarrow>
      (\<exists>pre t. f = pre @ t \<and> isGroupMatch t ds
         \<and> (\<forall>pre' t' ds'. f = pre' @ t' \<and> isGroupMatch t' ds' \<longrightarrow> length pre \<le> length pre'))"
  by (simp only: idSearch_Some leftmost_iff isGroupMatch_firstWord)

lemma idSearch_None:
  "idSearch f = None \<longleftrightarrow> \<not> (\<exists>pre t ds. f = pre @ t \<and> isGroupMatch t ds)"
proof
  assume n: "idSearch f = None"
  show "\<not> (\<exists>pre t ds. f = pre @ t \<and> isGroupMatch t ds)"
  proof
    assume ex: "\<exists>pre t ds. f = pre @ t \<and> isGroupMatch t ds"
    define P where "P k = (\<exists>pre t ds. f = pre @ t \<and> isGroupMatch t ds \<and> length pre = k)" for k
    have "\<exists>k. P k" using ex unfolding P_def by blast
    then obtain k where k: "P k" "\<forall>j<k. \<not> P j"
      using exists_least_iff[of P] by blast
    from k(1) obtain pre t ds where m: "f = pre @ t" "isGroupMatch t ds" "length pre = k"
      unfolding P_def by blast
    have "\<forall>pre' t' ds'. f = pre' @ t' \<and> isGroupMatch t' ds' \<longrightarrow> length pre \<le> length pre'"
    proof (intro allI impI)
      fix pre' t' ds' assume h: "f = pre' @ t' \<and> isGroupMatch t' ds'"
      then have "P (length pre')" unfolding P_def by blast
      then have "\<not> length pre' < k" using k(2) by blast
      then show "length pre \<le> length pre'" using m(3) by simp
    qed
    with m(1,2) have "\<exists>pre t. f = pre @ t \<and> isGroupMatch t ds
         \<and> (\<forall>pre' t' ds'. f = pre' @ t' \<and> isGroupMatch t' ds' \<longrightarrow> length pre \<le> length pre')"
      by (intro exI[of _ pre] exI[of _ t]) simp
    then have "idSearch f = Some ds" by (simp only: idSearch_match)
    then show False using n by simp
  qed
next
  assume a: "\<not> (\<exists>pre t ds. f = pre @ t \<and> isGroupMatch t ds)"
  show "idSearch f = None"
  proof (cases "idSearch f")
    case (Some ds)
    then obtain pre t where "f = pre @ t" "isGroupMatch t ds"
      unfolding idSearch_match by blast
    then show ?thesis using a by blast
  qed simp
qed

text \<open>
  Claim C5, as amended. The group id is \<open>"C"\<close> followed by the digits of the leftmost
  match of \<^verbatim>\<open>(Comparison|Comp|C|Contrast|Group|G)\s*[-_]?\s*\d+\<close> (letters in either case,
  white space, the no-break space included, allowed around the separator, the digit run
  taken whole), and it is absent
  exactly when the filename has no such match. In particular the id is \<open>"C7"\<close> when the
  digits of the leftmost match are \<open>7\<close>.
\<close>

theorem detectComparisonId_first_match:
  "(detectComparisonId f = Some r \<longleftrightarrow>
      (\<exists>pre t ds. f = pre @ t \<and> isGroupMatch t ds \<and> r = ''C'' @ ds
         \<and> (\<forall>pre' t' ds'. f = pre' @ t' \<and> isGroupMatch t' ds' \<longrightarrow> length pre \<le> length pre')))
   \<and> (detectComparisonId f = None \<longleftrightarrow> \<not> (\<exists>pre t ds. f = pre @ t \<and> isGroupMatch t ds))
   \<and> ((\<exists>pre t. f = pre @ t \<and> isGroupMatch t ''7''
         \<and> (\<forall>pre' t' ds'. f = pre' @ t' \<and> isGroupMatch t' ds' \<longrightarrow> length pre \<le> length pre'))
       \<longrightarrow> detectComparisonId f = Some ''C7'')"
proof -
  have a: "detectComparisonId f = Some r \<longleftrightarrow> (\<exists>ds. idSearch f = Some ds \<and> r = ''C'' @ ds)" for r
    by (auto simp: detectComparisonId_def split: option.splits)
  have b: "detectComparisonId f = None \<longleftrightarrow> idSearch f = None"
    by (auto simp: detectComparisonId_def split: option.splits)
  define L where "L pre = (\<forall>pre' t' ds'. f = pre' @ t' \<and> isGroupMatch t' ds' \<longrightarrow> length pre \<le> length pre')"
    for pre :: string
  have m: "idSearch f = Some ds \<longleftrightarrow> (\<exists>pre t. f = pre @ t \<and> isGroupMatch t ds \<and> L pre)" for ds
    unfolding L_def by (rule idSearch_match)
  have c: "(\<exists>ds. idSearch f = Some ds \<and> r = ''C'' @ ds) \<longleftrightarrow>
      (\<exists>pre t ds. f = pre @ t \<and> isGroupMatch t ds \<and> r = ''C'' @ ds \<and> L pre)"
    unfolding m by blast
  have d: "(\<exists>pre t. f = pre @ t \<and> isGroupMatch t ''7'' \<and> L pre) \<longrightarrow> detectComparisonId f = Some ''C7''"
    unfolding a m[symmetric] by simp
  have 1: "detectComparisonId f = Some r \<longleftrightarrow>
      (\<exists>pre t ds. f = pre @ t \<and> isGroupMatch t ds \<and> r = ''C'' @ ds \<and> L pre)"
    unfolding a c ..
  have 2: "detectComparisonId f = None \<longleftrightarrow> \<not> (\<exists>pre t ds. f = pre @ t \<and> isGroupMatch t ds)"
    unfolding b idSearch_None ..
  show ?thesis using 1 2 d unfolding L_def by (intro conjI)
qed

theorem detectComparisonId_first_match_witness:
  "detectComparisonId ''Comparison2_GO_Enrichment.xlsx'' = Some ''C2''
   \<and> (\<exists>pre t ds. ''Comparison2_GO_Enrichment.xlsx'' = pre @ t \<and> isGroupMatch t ds \<and> ''C2'' = ''C'' @ ds
         \<and> (\<forall>pre' t' ds'. ''Comparison2_GO_Enrichment.xlsx'' = pre' @ t' \<and> isGroupMatch t' ds'
               \<longrightarrow> length pre \<le> length pre'))
   \<and> detectComparisonId ''go_enrichment.xlsx'' = None
   \<and> \<not> (\<exists>pre t ds. ''go_enrichment.xlsx'' = pre @ t \<and> isGroupMatch t ds)
   \<and> detectComparisonId (''Comp'' @ [CHR 0xA0] @ ''1.xlsx'') = Some ''C1''
   \<and> (\<exists>pre t ds. ''Comp'' @ [CHR 0xA0] @ ''1.xlsx'' = pre @ t \<and> isGroupMatch t ds \<and> ''C1'' = ''C'' @ ds
         \<and> (\<forall>pre' t' ds'. ''Comp'' @ [CHR 0xA0] @ ''1.xlsx'' = pre' @ t' \<and> isGroupMatch t' ds'
               \<longrightarrow> length pre \<le> length pre'))"
proof -
  have 1: "detectComparisonId ''Comparison2_GO_Enrichment.xlsx'' = Some ''C2''" by code_simp
  have 2: "detectComparisonId ''go_enrichment.xlsx'' = None" by code_simp
  have 3: "detectComparisonId (''Comp'' @ [CHR 0xA0] @ ''1.xlsx'') = Some ''C1''" by code_simp
  show ?thesis
    using 1 2 3 detectComparisonId_first_match[of "''Comparison2_GO_Enrichment.xlsx''" "''C2''"]
      detectComparisonId_first_match[of "''go_enrichment.xlsx''" "''C2''"]
      detectComparisonId_first_match[of "''Comp'' @ [CHR 0xA0] @ ''1.xlsx''" "''C1''"]
    by (intro conjI) (simp_all only: simp_thms)
qed

text \<open>
  Claim C5 as stated fails twice. \<open>Comparison 1.xlsx\<close> has no substring of the stated
  pattern (a blank stands between the word and the digit), yet the group id is \<open>C1\<close>;
  and \<open>C71.xlsx\<close> contains a match of the stated pattern with the digit \<open>7\<close>, yet the
  group id is \<open>C71\<close>, not \<open>C7\<close>.
\<close>

theorem detectComparisonId_counterexample:
  "\<not> testI specIdPattern ''Comparison 1.xlsx''
   \<and> detectComparisonId ''Comparison 1.xlsx'' = Some ''C1''
   \<and> testI specIdPattern7 ''C71.xlsx''
   \<and> detectComparisonId ''C71.xlsx'' = Some ''C71''"
  by code_simp

subsection \<open>detectFileType\<close>

text \<open>
  Claim C3, as amended. For a filename that none of the earlier rules classifies (the
  binary and opaque extensions, the markup extensions, the gene-annotation extension,
  mapping, global stats), the classifier returns \<open>dge_summary\<close> exactly when the lower-cased
  name contains \<open>summary\<close>, \<open>overview\<close> or \<open>all\<close> together with \<open>dge\<close>, \<open>diff\<close> or \<open>deg\<close>.
\<close>

theorem detectFileType_dge_summary_iff:
  assumes "\<not> isDeliverableExt (toLowerCase f)" "\<not> isTemplateExt (toLowerCase f)"
    "\<not> isGtfExt (toLowerCase f)" "\<not> isMappingName (toLowerCase f)"
    "\<not> isStatsName (toLowerCase f)"
  shows "detectFileType f = dge_summary \<longleftrightarrow>
     (includesStr (toLowerCase f) ''summary'' \<or> includesStr (toLowerCase f) ''overview''
        \<or> includesStr (toLowerCase f) ''all'')
     \<and> (includesStr (toLowerCase f) ''dge'' \<or> includesStr (toLowerCase f) ''diff''
        \<or> includesStr (toLowerCase f) ''deg'')"
  using assms by (simp add: detectFileType_def Let_def isDgeSummaryName_def)

theorem detectFileType_dge_summary_iff_witness:
  "\<not> isDeliverableExt (toLowerCase ''DGE_Summary.xlsx'')
   \<and> \<not> isTemplateExt (toLowerCase ''DGE_Summary.xlsx'')
   \<and> \<not> isGtfExt (toLowerCase ''DGE_Summary.xlsx'')
   \<and> \<not> isMappingName (toLowerCase ''DGE_Summary.xlsx'')
   \<and> \<not> isStatsName (toLowerCase ''DGE_Summary.xlsx'')
   \<and> includesStr (toLowerCase ''DGE_Summary.xlsx'') ''summary''
   \<and> includesStr (toLowerCase ''DGE_Summary.xlsx'') ''dge''
   \<and> detectFileType ''DGE_Summary.xlsx'' = dge_summary"
proof -
  have h: "\<not> isDeliverableExt (toLowerCase ''DGE_Summary.xlsx'')"
    "\<not> isTemplateExt (toLowerCase ''DGE_Summary.xlsx'')"
    "\<not> isGtfExt (toLowerCase ''DGE_Summary.xlsx'')"
    "\<not> isMappingName (toLowerCase ''DGE_Summary.xlsx'')"
    "\<not> isStatsName (toLowerCase ''DGE_Summary.xlsx'')"
    by code_simp+
  have k: "includesStr (toLowerCase ''DGE_Summary.xlsx'') ''summary''"
    "includesStr (toLowerCase ''DGE_Summary.xlsx'') ''dge''"
    by code_simp+
  have "detectFileType ''DGE_Summary.xlsx'' = dge_summary"
    using detectFileType_dge_summary_iff[OF h] k by (simp only: simp_thms)
  then show ?thesis using h k by (intro conjI)
qed

text \<open>
  Claim C3 as stated fails: \<open>all_deg.xlsx\<close> is classified by none of the earlier rules and
  contains neither \<open>summary\<close> nor \<open>overview\<close>, yet it is a \<open>dge_summary\<close> (the rule also
  accepts the keyword \<open>all\<close>).
\<close>

theorem detectFileType_dge_summary_counterexample:
  "\<not> isDeliverableExt (toLowerCase ''all_deg.xlsx'')
   \<and> \<not> isTemplateExt (toLowerCase ''all_deg.xlsx'')
   \<and> \<not> isGtfExt (toLowerCase ''all_deg.xlsx'')
   \<and> \<not> isMappingName (toLowerCase ''all_deg.xlsx'')
   \<and> \<not> isStatsName (toLowerCase ''all_deg.xlsx'')
   \<and> \<not> includesStr (toLowerCase ''all_deg.xlsx'') ''summary''
   \<and> \<not> includesStr (toLowerCase ''all_deg.xlsx'') ''overview''
   \<and> detectFileType ''all_deg.xlsx'' = dge_summary"
  by code_simp

section \<open>Verification: tabular normalisation\<close>

subsection \<open>The header locator\<close>


lemma matchCount_qualifies: "1 \<le> matchCount J kws row \<longleftrightarrow> qualifies J kws row"
proof -
  have "1 \<le> length (filter P xs) \<longleftrightarrow> (\<exists>x\<in>set xs. P x)" for P and xs :: "string list"
    by (induction xs) auto
  then show ?thesis by (simp add: matchCount_def qualifies_def)
qed

lemma matchCount_qualifies_Suc: "Suc 0 \<le> matchCount J kws row \<longleftrightarrow> qualifies J kws row"
  using matchCount_qualifies[of J kws row] by simp

lemma headerScan_found:
  assumes "\<exists>j. i \<le> j \<and> j < min (length rawData) 20 \<and> qualifies J kws (rawData ! j)"
  shows "i \<le> headerScan J kws rawData i
    \<and> headerScan J kws rawData i < min (length rawData) 20
    \<and> qualifies J kws (rawData ! headerScan J kws rawData i)
    \<and> (\<forall>j. i \<le> j \<and> j < headerScan J kws rawData i \<longrightarrow> \<not> qualifies J kws (rawData ! j))"
  using assms
proof (induction J kws rawData i rule: headerScan.induct)
  case (1 J kws rawData i)
  from "1.prems" obtain j where j: "i \<le> j" "j < min (length rawData) 20"
    "qualifies J kws (rawData ! j)" by blast
  then have iw: "i < min (length rawData) 20" by simp
  show ?case
  proof (cases "qualifies J kws (rawData ! i)")
    case True
    then have "headerScan J kws rawData i = i"
      using iw by (subst headerScan.simps) (simp add: matchCount_qualifies matchCount_qualifies_Suc)
    then show ?thesis using True iw by auto
  next
    case False
    then have eq: "headerScan J kws rawData i = headerScan J kws rawData (i + 1)"
      using iw by (subst headerScan.simps) (simp add: matchCount_qualifies matchCount_qualifies_Suc)
    have "j \<noteq> i" using False j(3) by auto
    then have ex: "\<exists>j. i + 1 \<le> j \<and> j < min (length rawData) 20 \<and> qualifies J kws (rawData ! j)"
      using j by (intro exI[of _ j]) simp
    have nm: "\<not> 1 \<le> matchCount J kws (rawData ! i)"
      using False by (simp add: matchCount_qualifies matchCount_qualifies_Suc)
    note IH = "1.IH"[OF iw nm ex]
    show ?thesis unfolding eq
    proof (intro conjI allI impI)
      show "i \<le> headerScan J kws rawData (i + 1)" using IH by simp
      show "headerScan J kws rawData (i + 1) < min (length rawData) 20" using IH by simp
      show "qualifies J kws (rawData ! headerScan J kws rawData (i + 1))" using IH by simp
      fix k assume k: "i \<le> k \<and> k < headerScan J kws rawData (i + 1)"
      show "\<not> qualifies J kws (rawData ! k)"
      proof (cases "k = i")
        case True then show ?thesis using False by simp
      next
        case False
        then have "i + 1 \<le> k" using k by simp
        then show ?thesis using IH k by blast
      qed
    qed
  qed
qed

lemma headerScan_none:
  assumes "\<forall>j. i \<le> j \<and> j < min (length rawData) 20 \<longrightarrow> \<not> qualifies J kws (rawData ! j)"
  shows "headerScan J kws rawData i = 0"
  using assms
proof (induction J kws rawData i rule: headerScan.induct)
  case (1 J kws rawData i)
  show ?case
  proof (cases "i < min (length rawData) 20")
    case True
    then have nq: "\<not> qualifies J kws (rawData ! i)" using "1.prems" by simp
    then have nm: "\<not> 1 \<le> matchCount J kws (rawData ! i)"
      by (simp add: matchCount_qualifies matchCount_qualifies_Suc)
    have "headerScan J kws rawData i = headerScan J kws rawData (i + 1)"
      using True nm by (subst headerScan.simps) (simp add: matchCount_qualifies matchCount_qualifies_Suc)
    moreover have "headerScan J kws rawData (i + 1) = 0"
      using "1.IH"[OF True nm] "1.prems" by simp
    ultimately show ?thesis by simp
  next
    case False
    then show ?thesis by (subst headerScan.simps) auto
  qed
qed

text \<open>
  Claim C6. For a non-empty raw grid the header locator selects the smallest row index
  among the first 20 rows whose lower-cased joined cells contain a keyword, and row 0
  when no row of that window qualifies; on a grid whose row 0 matches no keyword and
  whose row 1 contains one, the selected index is 1. The selected row is the one whose
  cells become the headers of \<open>smartSheetToJson\<close>.
\<close>

theorem headerRowIndex_smallest:
  assumes "rawData \<noteq> []"
  shows "((\<exists>i < min (length rawData) 20. qualifies J kws (rawData ! i)) \<longrightarrow>
            headerRowIndex J kws rawData < min (length rawData) 20
            \<and> qualifies J kws (rawData ! headerRowIndex J kws rawData)
            \<and> (\<forall>i < headerRowIndex J kws rawData. \<not> qualifies J kws (rawData ! i)))
    \<and> ((\<forall>i < min (length rawData) 20. \<not> qualifies J kws (rawData ! i)) \<longrightarrow>
            headerRowIndex J kws rawData = 0)
    \<and> (2 \<le> length rawData \<and> \<not> qualifies J kws (rawData ! 0)
          \<and> qualifies J kws (rawData ! 1) \<longrightarrow> headerRowIndex J kws rawData = 1)
    \<and> smartSheetToJson J rawData kws =
         map (rowObject (headersOf J (rawData ! headerRowIndex J kws rawData)))
           (filter (\<lambda>row. row \<noteq> []) (drop (headerRowIndex J kws rawData + 1) rawData))"
proof (intro conjI impI)
  assume ex: "\<exists>i < min (length rawData) 20. qualifies J kws (rawData ! i)"
  then have "\<exists>j. 0 \<le> j \<and> j < min (length rawData) 20 \<and> qualifies J kws (rawData ! j)"
    by blast
  from headerScan_found[OF this]
  show "headerRowIndex J kws rawData < min (length rawData) 20"
    "qualifies J kws (rawData ! headerRowIndex J kws rawData)"
    "\<forall>i < headerRowIndex J kws rawData. \<not> qualifies J kws (rawData ! i)"
    by (simp_all add: headerRowIndex_def)
next
  assume "\<forall>i < min (length rawData) 20. \<not> qualifies J kws (rawData ! i)"
  then show "headerRowIndex J kws rawData = 0"
    unfolding headerRowIndex_def by (intro headerScan_none) simp
next
  assume a: "2 \<le> length rawData \<and> \<not> qualifies J kws (rawData ! 0)
          \<and> qualifies J kws (rawData ! 1)"
  then have "\<exists>j. 0 \<le> j \<and> j < min (length rawData) 20 \<and> qualifies J kws (rawData ! j)"
    by (intro exI[of _ 1]) simp
  from headerScan_found[OF this]
  have q: "qualifies J kws (rawData ! headerRowIndex J kws rawData)"
    and least: "\<forall>j < headerRowIndex J kws rawData. \<not> qualifies J kws (rawData ! j)"
    by (simp_all add: headerRowIndex_def)
  have "headerRowIndex J kws rawData \<noteq> 0" using q a by metis
  moreover have "\<not> 1 < headerRowIndex J kws rawData" using least a by blast
  ultimately show "headerRowIndex J kws rawData = 1" by simp
next
  show "smartSheetToJson J rawData kws =
         map (rowObject (headersOf J (rawData ! headerRowIndex J kws rawData)))
           (filter (\<lambda>row. row \<noteq> []) (drop (headerRowIndex J kws rawData + 1) rawData))"
    using assms by (simp add: smartSheetToJson_def Let_def)
qed


theorem headerRowIndex_smallest_witness:
  "exampleSheet \<noteq> []
   \<and> 2 \<le> length exampleSheet
   \<and> \<not> qualifies exampleEnv dgeSheetKeywords (exampleSheet ! 0)
   \<and> qualifies exampleEnv dgeSheetKeywords (exampleSheet ! 1)
   \<and> headerRowIndex exampleEnv dgeSheetKeywords exampleSheet = 1
   \<and> headerRowIndex exampleEnv [''zzz''] exampleSheet = 0"
proof -
  have ne: "exampleSheet \<noteq> []" by (simp add: exampleSheet_def)
  have l: "2 \<le> length exampleSheet" by (simp add: exampleSheet_def)
  have q0: "\<not> qualifies exampleEnv dgeSheetKeywords (exampleSheet ! 0)" by code_simp
  have q1: "qualifies exampleEnv dgeSheetKeywords (exampleSheet ! 1)" by code_simp
  have nq: "\<forall>i < min (length exampleSheet) 20. \<not> qualifies exampleEnv [''zzz''] (exampleSheet ! i)"
    by code_simp
  have "headerRowIndex exampleEnv dgeSheetKeywords exampleSheet = 1"
    using headerRowIndex_smallest[OF ne, of exampleEnv dgeSheetKeywords] l q0 q1 by blast
  moreover have "headerRowIndex exampleEnv [''zzz''] exampleSheet = 0"
    using headerRowIndex_smallest[OF ne, of exampleEnv "[''zzz'']"] nq by blast
  ultimately show ?thesis using ne l q0 q1 by (intro conjI)
qed

subsection \<open>Row objects\<close>


lemma map_of_update_other:
  "x \<noteq> k \<Longrightarrow>
     map_of (map (\<lambda>(k', v'). if k' = k then (k', v) else (k', v')) obj) x = map_of obj x"
  by (induction obj) auto

lemma map_of_update_same:
  "k \<in> fst ` set obj \<Longrightarrow>
     map_of (map (\<lambda>(k', v'). if k' = k then (k', v) else (k', v')) obj) k = Some v"
  by (induction obj) auto

lemma map_of_update_in_place:
  "k \<in> fst ` set obj \<Longrightarrow>
     map_of (map (\<lambda>(k', v'). if k' = k then (k', v) else (k', v')) obj) = (map_of obj)(k \<mapsto> v)"
  by (auto simp: fun_eq_iff map_of_update_other map_of_update_same)

lemma map_of_insertIndex:
  "k \<notin> fst ` set obj \<Longrightarrow> map_of (insertIndex k v obj) = (map_of obj)(k \<mapsto> v)"
proof (induction obj)
  case Nil then show ?case by simp
next
  case (Cons p ps)
  obtain a b where p: "p = (a, b)" by (cases p)
  have ak: "a \<noteq> k" and "k \<notin> fst ` set ps" using Cons.prems p by auto
  with Cons.IH show ?case by (auto simp: p fun_eq_iff)
qed

lemma map_of_snoc:
  "k \<notin> fst ` set obj \<Longrightarrow> map_of (obj @ [(k, v)]) = (map_of obj)(k \<mapsto> v)"
  by (induction obj) (auto simp: fun_eq_iff)

lemma map_of_putOwn: "map_of (putOwn obj k v) = (map_of obj)(k \<mapsto> v)"
proof (cases "k \<in> fst ` set obj")
  case True
  then show ?thesis by (simp add: putOwn_def map_of_update_in_place)
next
  case False
  show ?thesis
  proof (cases "isArrayIndex k")
    case True
    then show ?thesis using False by (simp add: putOwn_def map_of_insertIndex)
  next
    case notIndex: False
    have "putOwn obj k v = obj @ [(k, v)]" using False notIndex by (simp add: putOwn_def)
    then show ?thesis using map_of_snoc[OF False] by (simp only:)
  qed
qed

lemma keys_update_in_place:
  "map fst (map (\<lambda>(k', v'). if k' = k then (k', v) else (k', v')) obj) = map fst obj"
  by (induction obj) auto

lemma keys_update_comp:
  "map (fst \<circ> (\<lambda>(k', v'). if k' = k then (k', v) else (k', v'))) obj = map fst obj"
  by (induction obj) auto

lemma keys_insertIndex:
  "map fst obj = map fst obj' \<Longrightarrow>
     map fst (insertIndex k v obj) = map fst (insertIndex k v' obj')"
proof (induction obj arbitrary: obj')
  case Nil then show ?case by simp
next
  case (Cons p ps)
  then obtain p' ps' where o: "obj' = p' # ps'" "fst p = fst p'" "map fst ps = map fst ps'"
    by (cases obj') auto
  obtain a b where p: "p = (a, b)" by (cases p)
  obtain b' where p': "p' = (a, b')" using o(2) p by (cases p') auto
  show ?case using Cons.IH[OF o(3)] o(3) by (simp add: o(1) p p')
qed

lemma keys_putOwn:
  assumes "map fst obj = map fst obj'"
  shows "map fst (putOwn obj k v) = map fst (putOwn obj' k v')"
proof -
  have "set (map fst obj) = set (map fst obj')" using assms by simp
  then have s: "fst ` set obj = fst ` set obj'" by simp
  show ?thesis
  proof (cases "k \<in> fst ` set obj")
    case True
    have "map fst (putOwn obj k v) = map fst obj"
      using True unfolding putOwn_def by (simp only: if_True keys_update_in_place)
    moreover have "map fst (putOwn obj' k v') = map fst obj'"
      using True unfolding putOwn_def s by (simp only: if_True keys_update_in_place)
    ultimately show ?thesis using assms by simp
  next
    case False
    then show ?thesis
      using False[unfolded s] assms keys_insertIndex[OF assms, of k v v']
      by (simp add: putOwn_def)
  qed
qed

lemma set_insertIndex_pairs: "set (insertIndex k v obj) = insert (k, v) (set obj)"
  by (induction obj) (auto split: if_splits)

lemma set_insertIndex: "fst ` set (insertIndex k v obj) = insert k (fst ` set obj)"
  by (simp add: set_insertIndex_pairs)

lemma keyset_putOwn: "fst ` set (putOwn obj k v) = insert k (fst ` set obj)"
proof -
  have "dom (map_of (putOwn obj k v)) = insert k (dom (map_of obj))"
    by (simp add: map_of_putOwn)
  then show ?thesis by (simp add: dom_map_of_conv_image_fst)
qed

lemma distinct_insertIndex:
  "distinct (map fst obj) \<Longrightarrow> k \<notin> fst ` set obj \<Longrightarrow> distinct (map fst (insertIndex k v obj))"
proof (induction obj)
  case Nil then show ?case by simp
next
  case (Cons p ps)
  obtain a b where p: "p = (a, b)" by (cases p)
  have "a \<notin> fst ` set (insertIndex k v ps)"
    using Cons.prems p by (auto simp: set_insertIndex)
  then show ?case using Cons p by auto
qed

lemma distinct_putOwn:
  "distinct (map fst obj) \<Longrightarrow> distinct (map fst (putOwn obj k v))"
  by (auto simp: putOwn_def keys_update_comp distinct_insertIndex)

lemma ownProps_objSet:
  "ownProps (objSet obj k v) =
     (if k = ''__proto__'' \<and> \<not> protoNull obj then ownProps obj else putOwn (ownProps obj) k v)"
  by (simp add: objSet_def)

lemma protoNull_objSet:
  "protoNull (objSet obj k v) = (protoNull obj \<or> (k = ''__proto__'' \<and> v = Null))"
  by (auto simp: objSet_def)

lemma objSet_plain: "k \<noteq> ''__proto__'' \<Longrightarrow> objSet obj k v = Row (putOwn (ownProps obj) k v) (protoNull obj)"
  by (simp add: objSet_def)

lemma map_of_objSet:
  "n \<noteq> ''__proto__'' \<Longrightarrow>
     map_of (ownProps (objSet obj k v)) n = ((map_of (ownProps obj))(k \<mapsto> v)) n"
  by (simp add: ownProps_objSet map_of_putOwn)

lemma distinct_objSet:
  "distinct (map fst (ownProps obj)) \<Longrightarrow> distinct (map fst (ownProps (objSet obj k v)))"
  by (simp add: ownProps_objSet distinct_putOwn)

lemma rowObject_snoc:
  "rowObject (hs @ [h]) row = headerStep row (rowObject hs row) (length hs, h)"
  by (simp add: rowObject_def enumerate_append_eq)

lemma distinct_rowObject: "distinct (map fst (ownProps (rowObject hs row)))"
proof (induction hs rule: rev_induct)
  case Nil then show ?case by (simp add: rowObject_def emptyRow_def)
next
  case (snoc h hs)
  then show ?case
    by (cases h) (simp_all add: rowObject_snoc headerStep_def distinct_objSet)
qed

lemma rowObject_last:
  assumes "j < length hs" "hs ! j = Some name"
    "\<forall>k. j < k \<and> k < length hs \<longrightarrow> hs ! k \<noteq> Some name"
    "name \<noteq> ''__proto__''"
  shows "map_of (ownProps (rowObject hs row)) name = Some (cellAt row j)"
  using assms(1-3)
proof (induction hs rule: rev_induct)
  case Nil then show ?case by simp
next
  case (snoc h hs)
  show ?case
  proof (cases "j = length hs")
    case True
    then have "h = Some name" using snoc.prems(2) by simp
    then show ?thesis
      using True assms(4) by (simp add: rowObject_snoc headerStep_def map_of_objSet)
  next
    case False
    then have jl: "j < length hs" using snoc.prems(1) by simp
    have hj: "hs ! j = Some name" using snoc.prems(2) jl by (simp add: nth_append)
    have last: "\<forall>k. j < k \<and> k < length hs \<longrightarrow> hs ! k \<noteq> Some name"
    proof (intro allI impI)
      fix k assume k: "j < k \<and> k < length hs"
      then have "(hs @ [h]) ! k \<noteq> Some name"
        using snoc.prems(3)[rule_format, of k] by simp
      then show "hs ! k \<noteq> Some name" using k by (simp add: nth_append)
    qed
    have "(hs @ [h]) ! length hs \<noteq> Some name"
      using snoc.prems(3)[rule_format, of "length hs"] jl by simp
    then have hn: "h \<noteq> Some name" by simp
    from snoc.IH[OF jl hj last] hn assms(4) show ?thesis
      by (cases h) (auto simp: rowObject_snoc headerStep_def map_of_objSet)
  qed
qed

lemma assoc_eqI:
  assumes "map fst a = map fst b" "distinct (map fst a)"
    "\<forall>k\<in>fst ` set a. map_of a k = map_of b k"
  shows "a = b"
  using assms
proof (induction a arbitrary: b)
  case Nil then show ?case by simp
next
  case (Cons p ps)
  then obtain q qs where b: "b = q # qs" "fst p = fst q" "map fst ps = map fst qs"
    by (cases b) auto
  obtain k v where p: "p = (k, v)" by (cases p)
  obtain v' where q: "q = (k, v')" using b(2) p by (cases q) auto
  have "k \<in> fst ` set (p # ps)" by (simp add: p)
  from bspec[OF Cons.prems(3) this] have vv: "v = v'" by (simp add: p q b(1))
  have kn: "k \<notin> fst ` set ps" using Cons.prems(2) p by auto
  have "\<forall>x\<in>fst ` set ps. map_of ps x = map_of qs x"
  proof
    fix x assume x: "x \<in> fst ` set ps"
    then have xk: "x \<noteq> k" using kn by auto
    have "x \<in> fst ` set (p # ps)" using x by simp
    from bspec[OF Cons.prems(3) this] xk show "map_of ps x = map_of qs x"
      by (simp add: p q b(1))
  qed
  from Cons.IH[OF b(3) _ this] Cons.prems(2) have "ps = qs" by simp
  then show ?case by (simp add: b(1) p q vv)
qed

lemma cellAt_update: "j \<noteq> i \<Longrightarrow> cellAt (row[i := v]) j = cellAt row j"
  by (simp add: cellAt_def)

lemma agreeOff_objSet_name:
  assumes "agreeOff name a b" "name \<noteq> ''__proto__''"
  shows "agreeOff name (objSet a name v) (objSet b name w)"
proof -
  have k: "map fst (putOwn (ownProps a) name v) = map fst (putOwn (ownProps b) name w)"
    using assms(1) by (intro keys_putOwn) (simp add: agreeOff_def)
  show ?thesis
    using assms k by (simp add: agreeOff_def objSet_plain map_of_putOwn)
qed

lemma agreeOff_objSet_other:
  assumes "agreeOff name a b"
  shows "agreeOff name (objSet a k v) (objSet b k v)"
proof (cases "k = ''__proto__'' \<and> \<not> protoNull a")
  case True
  then have "k = ''__proto__'' \<and> \<not> protoNull b" using assms by (simp add: agreeOff_def)
  then show ?thesis using True assms by (simp add: agreeOff_def objSet_def)
next
  case False
  then have fb: "\<not> (k = ''__proto__'' \<and> \<not> protoNull b)" using assms by (simp add: agreeOff_def)
  have ks: "map fst (putOwn (ownProps a) k v) = map fst (putOwn (ownProps b) k v)"
    using assms by (intro keys_putOwn) (simp add: agreeOff_def)
  have oa: "objSet a k v = Row (putOwn (ownProps a) k v) (protoNull a)"
    using False by (auto simp: objSet_def)
  have ob: "objSet b k v = Row (putOwn (ownProps b) k v) (protoNull b)"
    using fb by (auto simp: objSet_def)
  show ?thesis
    unfolding oa ob using assms ks by (simp add: agreeOff_def map_of_putOwn)
qed

lemma agreeOff_rowObject:
  assumes "name \<noteq> ''__proto__''"
    and "\<forall>m. m < length hs \<and> hs ! m \<noteq> Some name \<longrightarrow> cellAt row m = cellAt row' m"
  shows "agreeOff name (rowObject hs row) (rowObject hs row')"
  using assms(2)
proof (induction hs rule: rev_induct)
  case Nil then show ?case by (simp add: rowObject_def agreeOff_def)
next
  case (snoc h hs)
  have prev: "\<forall>m. m < length hs \<and> hs ! m \<noteq> Some name \<longrightarrow> cellAt row m = cellAt row' m"
  proof (intro allI impI)
    fix m assume m: "m < length hs \<and> hs ! m \<noteq> Some name"
    then have "m < length (hs @ [h]) \<and> (hs @ [h]) ! m \<noteq> Some name" by (simp add: nth_append)
    then show "cellAt row m = cellAt row' m" using snoc.prems by blast
  qed
  note IH = snoc.IH[OF prev]
  show ?case
  proof (cases h)
    case None
    then show ?thesis using IH by (simp add: rowObject_snoc headerStep_def)
  next
    case (Some k)
    show ?thesis
    proof (cases "k = name")
      case True
      then show ?thesis
        using IH Some assms(1) by (simp add: rowObject_snoc headerStep_def agreeOff_objSet_name)
    next
      case False
      have "length hs < length (hs @ [h]) \<and> (hs @ [h]) ! length hs \<noteq> Some name"
        using False Some by simp
      then have c: "cellAt row (length hs) = cellAt row' (length hs)" using snoc.prems by blast
      show ?thesis
        using IH Some by (simp add: rowObject_snoc headerStep_def c agreeOff_objSet_other)
    qed
  qed
qed

lemma rowObject_earlier_column:
  assumes "i < j" "j < length hs" "hs ! i = Some name" "hs ! j = Some name"
    "name \<noteq> ''__proto__''"
  shows "rowObject hs (row[i := v]) = rowObject hs row"
proof -
  have ag: "agreeOff name (rowObject hs (row[i := v])) (rowObject hs row)"
  proof (rule agreeOff_rowObject[OF assms(5)], intro allI impI)
    fix m assume m: "m < length hs \<and> hs ! m \<noteq> Some name"
    then have "m \<noteq> i" using assms(3) by auto
    then show "cellAt (row[i := v]) m = cellAt row m" by (rule cellAt_update)
  qed
  define P where "P m = (m < length hs \<and> hs ! m = Some name)" for m
  have "P j" using assms(2,4) by (simp add: P_def)
  moreover have "\<forall>y. P y \<longrightarrow> y \<le> length hs" by (simp add: P_def)
  ultimately obtain m where m: "P m" "\<forall>y. P y \<longrightarrow> y \<le> m"
    using Nat.ex_has_greatest_nat[of P j "length hs"] by blast
  have ml: "m < length hs" "hs ! m = Some name" using m(1) by (simp_all add: P_def)
  have last: "\<forall>n. m < n \<and> n < length hs \<longrightarrow> hs ! n \<noteq> Some name"
  proof (intro allI impI)
    fix n assume n: "m < n \<and> n < length hs"
    show "hs ! n \<noteq> Some name"
    proof
      assume "hs ! n = Some name"
      then have "P n" using n by (simp add: P_def)
      then show False using m(2) n by auto
    qed
  qed
  have "j \<le> m" using m(2) \<open>P j\<close> by blast
  then have mi: "m \<noteq> i" using assms(1) by simp
  have nm: "map_of (ownProps (rowObject hs (row[i := v]))) name
      = map_of (ownProps (rowObject hs row)) name"
    using rowObject_last[OF ml last assms(5)] mi by (simp add: cellAt_update)
  have own: "ownProps (rowObject hs (row[i := v])) = ownProps (rowObject hs row)"
  proof (rule assoc_eqI)
    show "map fst (ownProps (rowObject hs (row[i := v]))) = map fst (ownProps (rowObject hs row))"
      using ag by (simp add: agreeOff_def)
    show "distinct (map fst (ownProps (rowObject hs (row[i := v]))))" by (rule distinct_rowObject)
    show "\<forall>k\<in>fst ` set (ownProps (rowObject hs (row[i := v]))).
            map_of (ownProps (rowObject hs (row[i := v]))) k = map_of (ownProps (rowObject hs row)) k"
    proof
      fix k
      show "map_of (ownProps (rowObject hs (row[i := v]))) k = map_of (ownProps (rowObject hs row)) k"
        using ag nm by (cases "k = name") (simp_all add: agreeOff_def)
    qed
  qed
  have "protoNull (rowObject hs (row[i := v])) = protoNull (rowObject hs row)"
    using ag by (simp add: agreeOff_def)
  then show ?thesis using own by (simp add: jsrow.expand)
qed

lemma filter_key_once:
  "distinct (map fst obj) \<Longrightarrow> k \<in> fst ` set obj \<Longrightarrow> length (filter (\<lambda>p. fst p = k) obj) = 1"
proof (induction obj)
  case Nil then show ?case by simp
next
  case (Cons p ps)
  show ?case
  proof (cases "fst p = k")
    case True
    then have "k \<notin> fst ` set ps" using Cons.prems(1) by auto
    then have "filter (\<lambda>p. fst p = k) ps = []" by (auto simp: filter_empty_conv)
    then show ?thesis using True by simp
  next
    case False
    then show ?thesis using Cons by auto
  qed
qed

text \<open>
  Claim C9, as amended. When two or more cells of the selected header row trim to the
  same string, and that string is not \<open>__proto__\<close>, every normalized row object maps the
  name to the value of the rightmost column bearing it, holds the name once, and does not
  depend on the value under an earlier column of the same name: that value is absent from
  the row object.
\<close>

theorem duplicate_headers_rightmost:
  assumes "rawData \<noteq> []"
    and "hs = headersOf J (rawData ! headerRowIndex J kws rawData)"
    and "i < j" "j < length hs" "hs ! i = Some name" "hs ! j = Some name"
    and "\<forall>k. j < k \<and> k < length hs \<longrightarrow> hs ! k \<noteq> Some name"
    and "name \<noteq> ''__proto__''"
  shows "smartSheetToJson J rawData kws =
           map (rowObject hs)
             (filter (\<lambda>row. row \<noteq> []) (drop (headerRowIndex J kws rawData + 1) rawData))
    \<and> (\<forall>row. getProp (rowObject hs row) (Some name) = cellAt row j
            \<and> length (filter (\<lambda>p. fst p = name) (ownProps (rowObject hs row))) = 1
            \<and> (\<forall>v. rowObject hs (row[i := v]) = rowObject hs row))"
proof (intro conjI allI)
  show "smartSheetToJson J rawData kws =
           map (rowObject hs)
             (filter (\<lambda>row. row \<noteq> []) (drop (headerRowIndex J kws rawData + 1) rawData))"
    using assms(1,2) by (simp add: smartSheetToJson_def Let_def)
next
  fix row
  show "getProp (rowObject hs row) (Some name) = cellAt row j"
    using rowObject_last[OF assms(4,6,7,8)] by (simp add: getProp_def keyName_def)
next
  fix row
  have "map_of (ownProps (rowObject hs row)) name = Some (cellAt row j)"
    by (rule rowObject_last[OF assms(4,6,7,8)])
  then have "name \<in> fst ` set (ownProps (rowObject hs row))"
    by (metis domI dom_map_of_conv_image_fst)
  then show "length (filter (\<lambda>p. fst p = name) (ownProps (rowObject hs row))) = 1"
    using filter_key_once[OF distinct_rowObject] by blast
next
  fix row v
  show "rowObject hs (row[i := v]) = rowObject hs row"
    by (rule rowObject_earlier_column[OF assms(3,4,5,6,8)])
qed


theorem duplicate_headers_rightmost_witness:
  "duplicateSheet \<noteq> []
   \<and> headersOf exampleEnv (duplicateSheet ! headerRowIndex exampleEnv enrichmentKeywords duplicateSheet)
       = [Some ''Gene'', Some ''FDR'', Some ''FDR'']
   \<and> smartSheetToJson exampleEnv duplicateSheet enrichmentKeywords
       = [rowObject [Some ''Gene'', Some ''FDR'', Some ''FDR'']
            [Some (JStr ''g1''), Some (JNum (Fin 0.5)), Some (JNum (Fin 0.01))]]
   \<and> getProp (rowObject [Some ''Gene'', Some ''FDR'', Some ''FDR'']
            [Some (JStr ''g1''), Some (JNum (Fin 0.5)), Some (JNum (Fin 0.01))]) (Some ''FDR'')
       = JNum (Fin 0.01)
   \<and> rowObject [Some ''Gene'', Some ''FDR'', Some ''FDR'']
            [Some (JStr ''g1''), Some (JNum (Fin 7)), Some (JNum (Fin 0.01))]
       = rowObject [Some ''Gene'', Some ''FDR'', Some ''FDR'']
            [Some (JStr ''g1''), Some (JNum (Fin 0.5)), Some (JNum (Fin 0.01))]"
proof -
  let ?hs = "[Some ''Gene'', Some ''FDR'', Some ''FDR'']"
  let ?row = "[Some (JStr ''g1''), Some (JNum (Fin 0.5)), Some (JNum (Fin 0.01))]"
  have ne: "duplicateSheet \<noteq> []" by (simp add: duplicateSheet_def)
  have h: "headerRowIndex exampleEnv enrichmentKeywords duplicateSheet = 0" by code_simp
  have hs: "?hs = headersOf exampleEnv (duplicateSheet ! headerRowIndex exampleEnv enrichmentKeywords duplicateSheet)"
    unfolding h by code_simp
  have last: "\<forall>k. 2 < k \<and> k < length ?hs \<longrightarrow> ?hs ! k \<noteq> Some ''FDR''" by simp
  have np: "''FDR'' \<noteq> ''__proto__''" by simp
  have d: "filter (\<lambda>row. row \<noteq> []) (drop (0 + 1) duplicateSheet) = [?row]"
    by (simp add: duplicateSheet_def)
  have c: "cellAt ?row 2 = JNum (Fin 0.01)"
    by (simp add: cellAt_def)
  have u: "?row[1 := Some (JNum (Fin 7))]
      = [Some (JStr ''g1''), Some (JNum (Fin 7)), Some (JNum (Fin 0.01))]" by simp
  have p: "(1::nat) < 2" "2 < length ?hs" "?hs ! 1 = Some ''FDR''" "?hs ! 2 = Some ''FDR''"
    by simp_all
  note t = duplicate_headers_rightmost[OF ne hs p(1) p(2) p(3) p(4) last np, unfolded h d]
  have t1: "smartSheetToJson exampleEnv duplicateSheet enrichmentKeywords = [rowObject ?hs ?row]"
    using t by simp
  have t2: "getProp (rowObject ?hs ?row) (Some ''FDR'') = JNum (Fin 0.01)"
    using t c by simp
  have "rowObject ?hs (?row[1 := Some (JNum (Fin 7))]) = rowObject ?hs ?row" using t by blast
  then have t3: "rowObject ?hs [Some (JStr ''g1''), Some (JNum (Fin 7)), Some (JNum (Fin 0.01))]
      = rowObject ?hs ?row" unfolding u .
  show ?thesis
    using ne hs[symmetric] t1 t2 t3 by (intro conjI)
qed

text \<open>
  Claim C9 as stated fails for the name \<open>__proto__\<close>. The header row of \<open>protoSheet\<close> holds
  two cells that trim to \<open>__proto__\<close>; the assignments to that name reach the setter of
  \<open>Object.prototype\<close> and create no property, so the row object has no key, and reading
  the name gives \<open>Object.prototype\<close>, not the value \<open>b\<close> of the rightmost column.
\<close>

theorem duplicate_headers_counterexample:
  "headersOf exampleEnv (protoSheet ! headerRowIndex exampleEnv enrichmentKeywords protoSheet)
      = [Some ''__proto__'', Some ''__proto__'']
   \<and> smartSheetToJson exampleEnv protoSheet enrichmentKeywords = [Row [] False]
   \<and> cellAt (protoSheet ! 1) 1 = JStr ''b''
   \<and> getProp (hd (smartSheetToJson exampleEnv protoSheet enrichmentKeywords)) (Some ''__proto__'')
      = ObjectPrototype
   \<and> objKeys (hd (smartSheetToJson exampleEnv protoSheet enrichmentKeywords)) = []"
proof -
  have h: "headerRowIndex exampleEnv enrichmentKeywords protoSheet = 0" by code_simp
  have hs: "headersOf exampleEnv (protoSheet ! 0) = [Some ''__proto__'', Some ''__proto__'']"
    by code_simp
  have d: "filter (\<lambda>row. row \<noteq> []) (drop (0 + 1) protoSheet) = drop 1 protoSheet"
    by (simp add: protoSheet_def)
  have j: "smartSheetToJson exampleEnv protoSheet enrichmentKeywords = [Row [] False]"
    unfolding smartSheetToJson_def Let_def h hs d
    by (simp add: protoSheet_def rowObject_def headerStep_def objSet_def emptyRow_def cellAt_def)
  have c: "cellAt (protoSheet ! 1) 1 = JStr ''b''" by (simp add: protoSheet_def cellAt_def)
  have g: "getProp (hd (smartSheetToJson exampleEnv protoSheet enrichmentKeywords)) (Some ''__proto__'')
      = ObjectPrototype"
    by (simp add: j getProp_def keyName_def inheritedProp_def)
  have k: "objKeys (hd (smartSheetToJson exampleEnv protoSheet enrichmentKeywords)) = []"
    by (simp add: j objKeys_def)
  show ?thesis using hs[folded h] j c g k by (intro conjI)
qed


section \<open>Verification: differential-expression summarizer\<close>

subsection \<open>The counts\<close>


lemma dgeRow_skip:
  "\<not> rowParses J logFCKey fdrKey row \<Longrightarrow> dgeRow J logFCKey fdrKey cpmKey idKey acc row = acc"
  by (auto simp: rowParses_def dgeRow_def Let_def)


lemma dgeRow_total:
  "rowParses J logFCKey fdrKey row \<Longrightarrow>
     cs_total (accStats (dgeRow J logFCKey fdrKey cpmKey idKey acc row)) = cs_total (accStats acc) + 1"
  by (simp add: rowParses_def dgeRow_def Let_def)



lemma foldl_dgeRow_total:
  "cs_total (accStats (foldl (dgeRow J a b c d) acc rows))
     = cs_total (accStats acc) + length (filter (rowParses J a b) rows)"
proof (induction rows arbitrary: acc)
  case Nil then show ?case by simp
next
  case (Cons r rs)
  show ?case
  proof (cases "rowParses J a b r")
    case True
    then show ?thesis using Cons[of "dgeRow J a b c d acc r"] by (simp add: dgeRow_total)
  next
    case False
    then show ?thesis using Cons[of acc] by (simp add: dgeRow_skip)
  qed
qed











subsection \<open>The fallback columns\<close>


lemma findFirst_None: "findFirst p xs = None \<longleftrightarrow> (\<forall>x\<in>set xs. \<not> p x)"
  by (induction xs) auto

lemma findFirst_Some: "findFirst p xs = Some x \<Longrightarrow> x \<in> set xs \<and> p x"
  by (induction xs) (auto split: if_splits)

lemma findFirst_first:
  "findFirst p xs = Some x \<Longrightarrow> \<exists>pre post. xs = pre @ x # post \<and> (\<forall>y\<in>set pre. \<not> p y)"
proof (induction xs)
  case Nil then show ?case by simp
next
  case (Cons a as)
  show ?case
  proof (cases "p a")
    case True
    then have "x = a" using Cons.prems by simp
    then show ?thesis by (intro exI[of _ "[]"] exI[of _ as]) simp
  next
    case False
    then have "findFirst p as = Some x" using Cons.prems by simp
    from Cons.IH[OF this] obtain pre post where "as = pre @ x # post" "\<forall>y\<in>set pre. \<not> p y"
      by blast
    then show ?thesis using False by (intro exI[of _ "a # pre"] exI[of _ post]) simp
  qed
qed

lemma findFirst_ex: "\<exists>x\<in>set xs. p x \<Longrightarrow> \<exists>x. findFirst p xs = Some x"
  using findFirst_None[of p xs] by (cases "findFirst p xs") auto

lemma keyOr_None: "keyOr None b = b"
  by (simp add: keyOr_def keyTruthy_def)

lemma keyOr_Some: "k \<noteq> [] \<Longrightarrow> keyOr (Some k) b = Some k"
  by (simp add: keyOr_def keyTruthy_def)

lemma keys_rowObject_plain:
  "distinct names \<Longrightarrow> \<forall>n\<in>set names. \<not> isArrayIndex n \<Longrightarrow> ''__proto__'' \<notin> set names \<Longrightarrow>
     objKeys (rowObject (map Some names) row) = names"
proof (induction names rule: rev_induct)
  case Nil then show ?case by (simp add: rowObject_def objKeys_def emptyRow_def)
next
  case (snoc n ns)
  have IH: "map fst (ownProps (rowObject (map Some ns) row)) = ns"
    using snoc by (simp add: objKeys_def)
  have "n \<notin> set ns" using snoc.prems(1) by simp
  then have nk: "n \<notin> fst ` set (ownProps (rowObject (map Some ns) row))"
    using IH by (metis set_map)
  have ni: "\<not> isArrayIndex n" using snoc.prems(2) by simp
  have np: "n \<noteq> ''__proto__''" using snoc.prems(3) by auto
  show ?case
    using nk ni IH
    by (simp add: rowObject_snoc headerStep_def objSet_plain[OF np] putOwn_def objKeys_def)
qed

lemma parseComparisonDGE_total:
  assumes "smartSheetToJson J rawData dgeSheetKeywords = jsonData" "jsonData \<noteq> []"
  shows "cs_total (dgeStats (parseComparisonDGE J (Some rawData)))
     = length (filter (rowParses J (logFCKeyOf (objKeys (hd jsonData)))
                         (fdrKeyOf (objKeys (hd jsonData)))) jsonData)"
proof -
  have "dgeStats (parseComparisonDGE J (Some rawData)) = accStats (dgeOfJson J jsonData)"
    unfolding parseComparisonDGE_def by (simp add: Let_def assms)
  then show ?thesis
    by (simp add: dgeOfJson_def Let_def foldl_dgeRow_total initAcc_def zeroStats_def)
qed

text \<open>
  Claim C10, as amended. When no key of the first row object matches a fold-change
  pattern, the fold-change field is the second key of that object, and when none matches
  an FDR pattern, the FDR field is its last key, both in the order of \<open>Object.keys\<close>. When
  the header cells are all present, pairwise distinct after trimming, none is an array
  index and none is \<open>__proto__\<close>, the keys are the header cells in column order, so these
  are the second and the last column. A sheet with rows is not rejected for lacking the
  columns: every row is read through these two fields, and the total of the result is the
  number of rows whose two values parse as numbers.
\<close>

theorem fallback_columns:
  "((\<forall>k\<in>set keys. \<not> testI logFCRx k) \<longrightarrow> logFCKeyOf keys = nthKey keys 1)
   \<and> ((\<forall>k\<in>set keys. \<not> testI fdrRx k) \<longrightarrow> fdrKeyOf keys = nthKey keys (length keys - 1))
   \<and> (distinct names \<and> (\<forall>n\<in>set names. \<not> isArrayIndex n) \<and> ''__proto__'' \<notin> set names \<longrightarrow>
         objKeys (rowObject (map Some names) row) = names)
   \<and> (jsonData = smartSheetToJson J rawData dgeSheetKeywords \<and> jsonData \<noteq> []
         \<and> (\<forall>k\<in>set (objKeys (hd jsonData)). \<not> testI logFCRx k)
         \<and> (\<forall>k\<in>set (objKeys (hd jsonData)). \<not> testI fdrRx k) \<longrightarrow>
         cs_total (dgeStats (parseComparisonDGE J (Some rawData)))
           = length (filter (rowParses J (nthKey (objKeys (hd jsonData)) 1)
                               (nthKey (objKeys (hd jsonData)) (length (objKeys (hd jsonData)) - 1)))
                       jsonData))"
proof -
  have a: "(\<forall>k\<in>set ks. \<not> testI logFCRx k) \<longrightarrow> logFCKeyOf ks = nthKey ks 1" for ks
  proof
    assume "\<forall>k\<in>set ks. \<not> testI logFCRx k"
    then have "findFirst (testI logFCRx) ks = None" by (simp add: findFirst_None)
    then show "logFCKeyOf ks = nthKey ks 1" by (simp add: logFCKeyOf_def keyOr_None)
  qed
  have b: "(\<forall>k\<in>set ks. \<not> testI fdrRx k) \<longrightarrow> fdrKeyOf ks = nthKey ks (length ks - 1)" for ks
  proof
    assume "\<forall>k\<in>set ks. \<not> testI fdrRx k"
    then have "findFirst (testI fdrRx) ks = None" by (simp add: findFirst_None)
    then show "fdrKeyOf ks = nthKey ks (length ks - 1)" by (simp add: fdrKeyOf_def keyOr_None)
  qed
  have c: "distinct names \<and> (\<forall>n\<in>set names. \<not> isArrayIndex n) \<and> ''__proto__'' \<notin> set names \<longrightarrow>
         objKeys (rowObject (map Some names) row) = names"
    using keys_rowObject_plain by blast
  have d: "jsonData = smartSheetToJson J rawData dgeSheetKeywords \<and> jsonData \<noteq> []
         \<and> (\<forall>k\<in>set (objKeys (hd jsonData)). \<not> testI logFCRx k)
         \<and> (\<forall>k\<in>set (objKeys (hd jsonData)). \<not> testI fdrRx k) \<longrightarrow>
         cs_total (dgeStats (parseComparisonDGE J (Some rawData)))
           = length (filter (rowParses J (nthKey (objKeys (hd jsonData)) 1)
                               (nthKey (objKeys (hd jsonData)) (length (objKeys (hd jsonData)) - 1)))
                       jsonData)"
  proof
    assume h: "jsonData = smartSheetToJson J rawData dgeSheetKeywords \<and> jsonData \<noteq> []
         \<and> (\<forall>k\<in>set (objKeys (hd jsonData)). \<not> testI logFCRx k)
         \<and> (\<forall>k\<in>set (objKeys (hd jsonData)). \<not> testI fdrRx k)"
    then have j: "smartSheetToJson J rawData dgeSheetKeywords = jsonData"
      and ne: "jsonData \<noteq> []"
      and nf: "\<forall>k\<in>set (objKeys (hd jsonData)). \<not> testI logFCRx k"
      and nd: "\<forall>k\<in>set (objKeys (hd jsonData)). \<not> testI fdrRx k"
      by blast+
    have k1: "logFCKeyOf (objKeys (hd jsonData)) = nthKey (objKeys (hd jsonData)) 1"
      using a nf by blast
    have k2: "fdrKeyOf (objKeys (hd jsonData))
        = nthKey (objKeys (hd jsonData)) (length (objKeys (hd jsonData)) - 1)"
      using b nd by blast
    show "cs_total (dgeStats (parseComparisonDGE J (Some rawData)))
           = length (filter (rowParses J (nthKey (objKeys (hd jsonData)) 1)
                               (nthKey (objKeys (hd jsonData)) (length (objKeys (hd jsonData)) - 1)))
                       jsonData)"
      using parseComparisonDGE_total[OF j ne] unfolding k1 k2 .
  qed
  show ?thesis using a[of keys] b[of keys] c d by (intro conjI)
qed

lemma foldJson:
  "smartSheetToJson exampleEnv foldSheet dgeSheetKeywords =
     [(Row [(''Gene'', JNum (Fin 2.5)), (''PValue'', JNum (Fin 0.01))] False)]"
proof -
  have h: "headerRowIndex exampleEnv dgeSheetKeywords foldSheet = 0" by code_simp
  have hs: "headersOf exampleEnv (foldSheet ! 0) = [Some ''Gene'', Some ''Gene'', Some ''PValue'']"
    by code_simp
  have ia: "\<not> isArrayIndex ''Gene''" "\<not> isArrayIndex ''PValue''"
    by (simp_all add: isArrayIndex_def isDigit_def)
  have d: "filter (\<lambda>row. row \<noteq> []) (drop (0 + 1) foldSheet) = drop 1 foldSheet"
    by (simp add: foldSheet_def)
  show ?thesis
    unfolding smartSheetToJson_def Let_def h hs d
    by (simp add: foldSheet_def rowObject_def headerStep_def objSet_def putOwn_def emptyRow_def cellAt_def ia)
qed

text \<open>
  Claim C10 as stated fails. In \<open>foldSheet\<close> no header matches a fold-change pattern, and the
  first two columns are both named \<open>Gene\<close>: the row object has the keys \<open>Gene\<close> and
  \<open>PValue\<close>, the fold-change field is \<open>PValue\<close>, and the fold change of the row is read
  from the third column (\<open>0.01\<close>), not from the second (\<open>2.5\<close>).
\<close>

theorem fallback_columns_counterexample:
  "headersOf exampleEnv (foldSheet ! headerRowIndex exampleEnv dgeSheetKeywords foldSheet)
      = [Some ''Gene'', Some ''Gene'', Some ''PValue'']
   \<and> \<not> testI logFCRx ''Gene'' \<and> \<not> testI logFCRx ''PValue''
   \<and> objKeys (hd (smartSheetToJson exampleEnv foldSheet dgeSheetKeywords)) = [''Gene'', ''PValue'']
   \<and> logFCKeyOf [''Gene'', ''PValue''] = Some ''PValue''
   \<and> cellAt (foldSheet ! 1) 1 = JNum (Fin 2.5)
   \<and> cellAt (foldSheet ! 1) 2 = JNum (Fin 0.01)
   \<and> getProp (hd (smartSheetToJson exampleEnv foldSheet dgeSheetKeywords)) (Some ''PValue'')
      = JNum (Fin 0.01)"
proof -
  have h: "headerRowIndex exampleEnv dgeSheetKeywords foldSheet = 0" by code_simp
  have 1: "headersOf exampleEnv (foldSheet ! headerRowIndex exampleEnv dgeSheetKeywords foldSheet)
      = [Some ''Gene'', Some ''Gene'', Some ''PValue'']"
    unfolding h by code_simp
  have 2: "\<not> testI logFCRx ''Gene''" "\<not> testI logFCRx ''PValue''" by code_simp+
  have 3: "objKeys (hd (smartSheetToJson exampleEnv foldSheet dgeSheetKeywords)) = [''Gene'', ''PValue'']"
    by (simp add: foldJson objKeys_def)
  have 4: "logFCKeyOf [''Gene'', ''PValue''] = Some ''PValue''" by code_simp
  have 5: "cellAt (foldSheet ! 1) 1 = JNum (Fin 2.5)" "cellAt (foldSheet ! 1) 2 = JNum (Fin 0.01)"
    by (simp_all add: foldSheet_def cellAt_def)
  have 6: "getProp (hd (smartSheetToJson exampleEnv foldSheet dgeSheetKeywords)) (Some ''PValue'')
      = JNum (Fin 0.01)"
    by (simp add: foldJson getProp_def keyName_def)
  show ?thesis using 1 2 3 4 5 6 by (intro conjI)
qed

lemma plainJson:
  "smartSheetToJson exampleEnv plainSheet dgeSheetKeywords =
     [Row [(''Gene'', JStr ''g1''), (''Score'', JNum (Fin 2.5)), (''PValue'', JNum (Fin 0.01))] False,
      Row [(''Gene'', JStr ''g2''), (''Score'', JStr ''n/a''), (''PValue'', JNum (Fin 0.2))] False]"
proof -
  have h: "headerRowIndex exampleEnv dgeSheetKeywords plainSheet = 0" by code_simp
  have hs: "headersOf exampleEnv (plainSheet ! 0) = [Some ''Gene'', Some ''Score'', Some ''PValue'']"
    by code_simp
  have ia: "\<not> isArrayIndex ''Gene''" "\<not> isArrayIndex ''Score''" "\<not> isArrayIndex ''PValue''"
    by (simp_all add: isArrayIndex_def isDigit_def)
  have d: "filter (\<lambda>row. row \<noteq> []) (drop (0 + 1) plainSheet) = drop 1 plainSheet"
    by (simp add: plainSheet_def)
  show ?thesis
    unfolding smartSheetToJson_def Let_def h hs d
    by (simp add: plainSheet_def rowObject_def headerStep_def objSet_def putOwn_def emptyRow_def cellAt_def ia)
qed

theorem fallback_columns_witness:
  "\<not> testI logFCRx ''Gene'' \<and> \<not> testI logFCRx ''Score'' \<and> \<not> testI logFCRx ''PValue''
   \<and> logFCKeyOf [''Gene'', ''Score'', ''PValue''] = Some ''Score''
   \<and> \<not> testI fdrRx ''Gene'' \<and> \<not> testI fdrRx ''Score'' \<and> \<not> testI fdrRx ''PValue''
   \<and> fdrKeyOf [''Gene'', ''Score'', ''PValue''] = Some ''PValue''
   \<and> distinct [''Gene'', ''Score'', ''PValue'']
   \<and> \<not> isArrayIndex ''Gene'' \<and> \<not> isArrayIndex ''Score'' \<and> \<not> isArrayIndex ''PValue''
   \<and> objKeys (rowObject (map Some [''Gene'', ''Score'', ''PValue''])
        [Some (JStr ''g1''), Some (JNum (Fin 2.5)), Some (JNum (Fin 0.01))])
      = [''Gene'', ''Score'', ''PValue'']
   \<and> objKeys (hd (smartSheetToJson exampleEnv plainSheet dgeSheetKeywords))
      = [''Gene'', ''Score'', ''PValue'']
   \<and> cs_total (dgeStats (parseComparisonDGE exampleEnv (Some plainSheet))) = 1"
proof -
  let ?ks = "[''Gene'', ''Score'', ''PValue'']"
  have a: "\<not> testI logFCRx ''Gene''" "\<not> testI logFCRx ''Score''" "\<not> testI logFCRx ''PValue''"
    by code_simp+
  have b: "\<not> testI fdrRx ''Gene''" "\<not> testI fdrRx ''Score''" "\<not> testI fdrRx ''PValue''"
    by code_simp+
  have c: "distinct ?ks" by simp
  have d: "\<not> isArrayIndex ''Gene''" "\<not> isArrayIndex ''Score''" "\<not> isArrayIndex ''PValue''"
    by (simp_all add: isArrayIndex_def isDigit_def)
  have p: "''__proto__'' \<notin> set ?ks" by simp
  have ks: "objKeys (hd (smartSheetToJson exampleEnv plainSheet dgeSheetKeywords)) = ?ks"
    by (simp add: plainJson objKeys_def)
  have ne: "smartSheetToJson exampleEnv plainSheet dgeSheetKeywords \<noteq> []"
    by (simp add: plainJson)
  have cnt: "length (filter (rowParses exampleEnv (Some ''Score'') (Some ''PValue''))
       (smartSheetToJson exampleEnv plainSheet dgeSheetKeywords)) = 1"
    unfolding plainJson
    by (simp add: rowParses_def getProp_def keyName_def exampleEnv_def exampleParse_def
        isDigit_def isNaN_def)
  note t = fallback_columns[of ?ks ?ks
      "[Some (JStr ''g1''), Some (JNum (Fin 2.5)), Some (JNum (Fin 0.01))]"
      "smartSheetToJson exampleEnv plainSheet dgeSheetKeywords" exampleEnv plainSheet]
  have e: "logFCKeyOf ?ks = Some ''Score''" using t a by (simp add: nthKey_def)
  have f: "fdrKeyOf ?ks = Some ''PValue''" using t b by (simp add: nthKey_def)
  have g: "objKeys (rowObject (map Some ?ks)
        [Some (JStr ''g1''), Some (JNum (Fin 2.5)), Some (JNum (Fin 0.01))]) = ?ks"
    using t c d p by simp
  have "cs_total (dgeStats (parseComparisonDGE exampleEnv (Some plainSheet)))
      = length (filter (rowParses exampleEnv (nthKey ?ks 1) (nthKey ?ks (length ?ks - 1)))
          (smartSheetToJson exampleEnv plainSheet dgeSheetKeywords))"
    using t ne a b unfolding ks by simp
  then have i: "cs_total (dgeStats (parseComparisonDGE exampleEnv (Some plainSheet))) = 1"
    using cnt by (simp add: nthKey_def)
  show ?thesis using a e b f c d g ks i by (intro conjI)
qed


section \<open>Verification: enrichment extractor\<close>



lemma rxSearch_Nil: "rxSearch r [] = nullable r" by simp

lemma testI_nonempty: "\<not> nullable r \<Longrightarrow> testI r k \<Longrightarrow> k \<noteq> []"
  by (auto simp: testI_def toLowerCase_def)

lemma testPrefixI_nonempty: "\<not> nullable r \<Longrightarrow> testPrefixI r k \<Longrightarrow> k \<noteq> []"
  by (auto simp: testPrefixI_def toLowerCase_def)

lemma testFullI_nonempty: "\<not> nullable r \<Longrightarrow> testFullI r k \<Longrightarrow> k \<noteq> []"
  by (auto simp: testFullI_def toLowerCase_def)

lemma keyOr_findFirst:
  assumes "\<And>k. p k \<Longrightarrow> k \<noteq> []"
  shows "keyOr (findFirst p keys) b = (if \<exists>k\<in>set keys. p k then findFirst p keys else b)"
proof (cases "findFirst p keys")
  case None
  then show ?thesis using findFirst_None[of p keys] by (simp add: keyOr_None)
next
  case (Some k)
  then have "k \<in> set keys \<and> p k" by (rule findFirst_Some)
  then show ?thesis using Some assms[of k] by (auto simp: keyOr_Some)
qed

lemma nn: "\<not> nullable (lit ''description'')" "\<not> nullable (lit ''term'')"
  "\<not> nullable (lit ''pathway'')" "\<not> nullable (lit ''id'')" "\<not> nullable (lit ''count'')"
  "\<not> nullable (lit ''significant'')" "\<not> nullable (lit ''n'')" "\<not> nullable geneCountRx"
  by (simp_all add: geneCountRx_def)

text \<open>
  Claim C4, as amended. The term field is read through the first key, in the order of
  \<open>Object.keys\<close>, that contains \<open>description\<close>; failing that, the first that contains
  \<open>term\<close>, then \<open>pathway\<close>, then \<open>id\<close>; failing all, the first key. The count field is
  read through the first key that begins with \<open>count\<close>; failing that, the first that
  contains \<open>significant\<close>, then the key that is exactly \<open>n\<close>, then the first that contains
  \<open>gene_count\<close> or \<open>genecount\<close>; failing all, there is no count key. All tests ignore the
  case of letters. A key matching a pattern of higher priority is chosen over every key
  that matches only patterns of lower priority.
\<close>

theorem enrichment_key_priority:
  "termKeyOf keys =
     (if \<exists>k\<in>set keys. testI (lit ''description'') k then findFirst (testI (lit ''description'')) keys
      else if \<exists>k\<in>set keys. testI (lit ''term'') k then findFirst (testI (lit ''term'')) keys
      else if \<exists>k\<in>set keys. testI (lit ''pathway'') k then findFirst (testI (lit ''pathway'')) keys
      else if \<exists>k\<in>set keys. testI (lit ''id'') k then findFirst (testI (lit ''id'')) keys
      else nthKey keys 0)
   \<and> countKeyOf keys =
     (if \<exists>k\<in>set keys. testPrefixI (lit ''count'') k then findFirst (testPrefixI (lit ''count'')) keys
      else if \<exists>k\<in>set keys. testI (lit ''significant'') k
        then findFirst (testI (lit ''significant'')) keys
      else if \<exists>k\<in>set keys. testFullI (lit ''n'') k then findFirst (testFullI (lit ''n'')) keys
      else findFirst (testI geneCountRx) keys)
   \<and> (\<forall>p k. findFirst p keys = Some k \<longrightarrow>
          (\<exists>pre post. keys = pre @ k # post \<and> p k \<and> (\<forall>y\<in>set pre. \<not> p y)))
   \<and> (\<forall>tk ck catk pk row.
          etTerm (enrichRow J tk ck catk pk row) = toStr J (orElse (getProp row tk) (JStr ''Unknown''))
          \<and> (keyTruthy ck \<and> getProp row ck \<noteq> Undefined \<and> \<not> isNaN (parseIntOf J (getProp row ck))
                \<longrightarrow> etCount (enrichRow J tk ck catk pk row) = parseIntOf J (getProp row ck)))
   \<and> (sheet = Some rawData \<and> smartSheetToJson J rawData enrichmentKeywords = jsonData
        \<and> jsonData \<noteq> [] \<longrightarrow>
        parseEnrichment J sheet =
          map (enrichRow J (termKeyOf (objKeys (hd jsonData))) (countKeyOf (objKeys (hd jsonData)))
                 (catKeyOf (objKeys (hd jsonData))) (pKeyOf (objKeys (hd jsonData))))
            (take 50 jsonData))"
proof (intro conjI allI impI)
  show "termKeyOf keys =
     (if \<exists>k\<in>set keys. testI (lit ''description'') k then findFirst (testI (lit ''description'')) keys
      else if \<exists>k\<in>set keys. testI (lit ''term'') k then findFirst (testI (lit ''term'')) keys
      else if \<exists>k\<in>set keys. testI (lit ''pathway'') k then findFirst (testI (lit ''pathway'')) keys
      else if \<exists>k\<in>set keys. testI (lit ''id'') k then findFirst (testI (lit ''id'')) keys
      else nthKey keys 0)"
    unfolding termKeyOf_def
    by (simp only: keyOr_findFirst[OF testI_nonempty[OF nn(1)]]
        keyOr_findFirst[OF testI_nonempty[OF nn(2)]]
        keyOr_findFirst[OF testI_nonempty[OF nn(3)]]
        keyOr_findFirst[OF testI_nonempty[OF nn(4)]])
  show "countKeyOf keys =
     (if \<exists>k\<in>set keys. testPrefixI (lit ''count'') k then findFirst (testPrefixI (lit ''count'')) keys
      else if \<exists>k\<in>set keys. testI (lit ''significant'') k
        then findFirst (testI (lit ''significant'')) keys
      else if \<exists>k\<in>set keys. testFullI (lit ''n'') k then findFirst (testFullI (lit ''n'')) keys
      else findFirst (testI geneCountRx) keys)"
    unfolding countKeyOf_def
    by (simp only: keyOr_findFirst[OF testPrefixI_nonempty[OF nn(5)]]
        keyOr_findFirst[OF testI_nonempty[OF nn(6)]]
        keyOr_findFirst[OF testFullI_nonempty[OF nn(7)]])
next
  fix p :: "string \<Rightarrow> bool" and k
  assume f: "findFirst p keys = Some k"
  from findFirst_first[OF f] findFirst_Some[OF f]
  show "\<exists>pre post. keys = pre @ k # post \<and> p k \<and> (\<forall>y\<in>set pre. \<not> p y)" by blast
next
  fix tk ck catk pk row
  show "etTerm (enrichRow J tk ck catk pk row) = toStr J (orElse (getProp row tk) (JStr ''Unknown''))"
    by (simp add: enrichRow_def Let_def)
next
  fix tk ck catk pk row
  assume "keyTruthy ck \<and> getProp row ck \<noteq> Undefined \<and> \<not> isNaN (parseIntOf J (getProp row ck))"
  then show "etCount (enrichRow J tk ck catk pk row) = parseIntOf J (getProp row ck)"
    by (simp add: enrichRow_def Let_def)
next
  assume "sheet = Some rawData \<and> smartSheetToJson J rawData enrichmentKeywords = jsonData
        \<and> jsonData \<noteq> []"
  then have s: "sheet = Some rawData"
    and j: "smartSheetToJson J rawData enrichmentKeywords = jsonData"
    and ne: "jsonData \<noteq> []" by blast+
  show "parseEnrichment J sheet =
          map (enrichRow J (termKeyOf (objKeys (hd jsonData))) (countKeyOf (objKeys (hd jsonData)))
                 (catKeyOf (objKeys (hd jsonData))) (pKeyOf (objKeys (hd jsonData))))
            (take 50 jsonData)"
    unfolding parseEnrichment_def s by (simp add: Let_def j ne)
qed

lemma digitsOf40: "digitsOf 40 = ''40''"
  by (simp add: digitsOf.simps[of 40] digitsOf.simps[of 4] digitChar_def)

lemma parseInt40: "parseIntOf exampleEnv (JNum (Fin 40)) = Fin 40"
  by (simp add: parseIntOf_def exampleEnv_def exampleNumToString_def exampleParse_def
      digitsOf40 isDigit_def digitsToNat_def digitVal_def)

lemma enrichJson:
  "smartSheetToJson exampleEnv enrichSheet enrichmentKeywords =
     [(Row [(''Term'', JStr ''cell cycle''), (''Significant'', JNum (Fin 12)), (''Counts'', JNum (Fin 40))] False)]"
proof -
  have h: "headerRowIndex exampleEnv enrichmentKeywords enrichSheet = 0" by code_simp
  have hs: "headersOf exampleEnv (enrichSheet ! 0) = [Some ''Term'', Some ''Significant'', Some ''Counts'']"
    by code_simp
  have ia: "\<not> isArrayIndex ''Term''" "\<not> isArrayIndex ''Significant''" "\<not> isArrayIndex ''Counts''"
    by (simp_all add: isArrayIndex_def isDigit_def)
  have d: "filter (\<lambda>row. row \<noteq> []) (drop (0 + 1) enrichSheet) = drop 1 enrichSheet"
    by (simp add: enrichSheet_def)
  show ?thesis
    unfolding smartSheetToJson_def Let_def h hs d
    by (simp add: enrichSheet_def rowObject_def headerStep_def objSet_def putOwn_def emptyRow_def cellAt_def ia)
qed

text \<open>
  Claim C4 as stated fails. In \<open>enrichSheet\<close> no header is exactly \<open>count\<close> and the header
  \<open>Significant\<close> matches the second pattern, yet the count key is \<open>Counts\<close> (the first
  pattern is a prefix test): the count of the record is \<open>40\<close>, not the \<open>12\<close> of the column
  \<open>Significant\<close>.
\<close>

theorem enrichment_key_priority_counterexample:
  "objKeys (hd (smartSheetToJson exampleEnv enrichSheet enrichmentKeywords))
      = [''Term'', ''Significant'', ''Counts'']
   \<and> \<not> testFullI (lit ''count'') ''Term'' \<and> \<not> testFullI (lit ''count'') ''Significant''
   \<and> \<not> testFullI (lit ''count'') ''Counts''
   \<and> testI (lit ''significant'') ''Significant''
   \<and> countKeyOf [''Term'', ''Significant'', ''Counts''] = Some ''Counts''
   \<and> getProp (hd (smartSheetToJson exampleEnv enrichSheet enrichmentKeywords)) (Some ''Significant'')
        = JNum (Fin 12)
   \<and> map etCount (parseEnrichment exampleEnv (Some enrichSheet)) = [Fin 40]"
proof -
  have 1: "objKeys (hd (smartSheetToJson exampleEnv enrichSheet enrichmentKeywords))
      = [''Term'', ''Significant'', ''Counts'']"
    by (simp add: enrichJson objKeys_def)
  have 2: "\<not> testFullI (lit ''count'') ''Term''" "\<not> testFullI (lit ''count'') ''Significant''"
    "\<not> testFullI (lit ''count'') ''Counts''" "testI (lit ''significant'') ''Significant''"
    "countKeyOf [''Term'', ''Significant'', ''Counts''] = Some ''Counts''"
    by code_simp+
  have 3: "getProp (hd (smartSheetToJson exampleEnv enrichSheet enrichmentKeywords)) (Some ''Significant'')
        = JNum (Fin 12)"
    by (simp add: enrichJson getProp_def keyName_def)
  have 4: "map etCount (parseEnrichment exampleEnv (Some enrichSheet)) = [Fin 40]"
    by (simp add: parseEnrichment_def Let_def enrichJson objKeys_def 2(5) enrichRow_def
        getProp_def keyName_def keyTruthy_def isNaN_def parseInt40)
  show ?thesis using 1 2 3 4 by (intro conjI)
qed

theorem enrichment_key_priority_witness:
  "testI (lit ''term'') ''Term''
   \<and> termKeyOf [''ID'', ''Term'', ''Description''] = Some ''Description''
   \<and> countKeyOf [''N'', ''Significant'', ''Count''] = Some ''Count''
   \<and> findFirst (testI (lit ''term'')) [''ID'', ''Term'', ''Description''] = Some ''Term''
   \<and> (\<exists>pre post. [''ID'', ''Term'', ''Description''] = pre @ ''Term'' # post
         \<and> testI (lit ''term'') ''Term'' \<and> (\<forall>y\<in>set pre. \<not> testI (lit ''term'') y))
   \<and> smartSheetToJson exampleEnv enrichSheet enrichmentKeywords \<noteq> []
   \<and> map etTerm (parseEnrichment exampleEnv (Some enrichSheet)) = [''cell cycle'']
   \<and> map etCount (parseEnrichment exampleEnv (Some enrichSheet)) = [Fin 40]
   \<and> etCount (enrichRow exampleEnv (Some ''Term'') (Some ''Counts'') None None
        (Row [(''Term'', JStr ''cell cycle''), (''Significant'', JNum (Fin 12)), (''Counts'', JNum (Fin 40))] False))
      = Fin 40"
proof -
  let ?ks = "[''ID'', ''Term'', ''Description'']"
  let ?row = "(Row [(''Term'', JStr ''cell cycle''), (''Significant'', JNum (Fin 12)), (''Counts'', JNum (Fin 40))] False)"
  let ?cs = "[''N'', ''Significant'', ''Count'']"
  note t = enrichment_key_priority[of ?ks exampleEnv "Some enrichSheet" enrichSheet
      "smartSheetToJson exampleEnv enrichSheet enrichmentKeywords"]
  note c = enrichment_key_priority[of ?cs exampleEnv "Some enrichSheet" enrichSheet
      "smartSheetToJson exampleEnv enrichSheet enrichmentKeywords"]
  have d: "\<exists>k\<in>set ?ks. testI (lit ''description'') k" by code_simp
  have fd: "findFirst (testI (lit ''description'')) ?ks = Some ''Description''" by code_simp
  have 1: "termKeyOf ?ks = Some ''Description''" using t d fd by simp
  have e: "\<exists>k\<in>set ?cs. testPrefixI (lit ''count'') k" by code_simp
  have fc: "findFirst (testPrefixI (lit ''count'')) ?cs = Some ''Count''" by code_simp
  have 2: "countKeyOf ?cs = Some ''Count''" using c e fc by simp
  have ft: "findFirst (testI (lit ''term'')) ?ks = Some ''Term''" by code_simp
  have 3: "\<exists>pre post. ?ks = pre @ ''Term'' # post
         \<and> testI (lit ''term'') ''Term'' \<and> (\<forall>y\<in>set pre. \<not> testI (lit ''term'') y)"
    using t ft by blast
  have 0: "testI (lit ''term'') ''Term''" using 3 by blast
  have ne: "smartSheetToJson exampleEnv enrichSheet enrichmentKeywords \<noteq> []"
    by (simp add: enrichJson)
  have ks: "objKeys (hd (smartSheetToJson exampleEnv enrichSheet enrichmentKeywords))
      = [''Term'', ''Significant'', ''Counts'']"
    by (simp add: enrichJson objKeys_def)
  have tk: "termKeyOf [''Term'', ''Significant'', ''Counts''] = Some ''Term''" by code_simp
  have ck: "countKeyOf [''Term'', ''Significant'', ''Counts''] = Some ''Counts''" by code_simp
  have pe: "parseEnrichment exampleEnv (Some enrichSheet) =
     map (enrichRow exampleEnv (Some ''Term'') (Some ''Counts'')
            (catKeyOf [''Term'', ''Significant'', ''Counts''])
            (pKeyOf [''Term'', ''Significant'', ''Counts'']))
       (take 50 (smartSheetToJson exampleEnv enrichSheet enrichmentKeywords))"
    using t ne unfolding ks tk ck by blast
  have 4: "map etTerm (parseEnrichment exampleEnv (Some enrichSheet)) = [''cell cycle'']"
    unfolding pe enrichJson
    by (simp add: enrichRow_def Let_def getProp_def keyName_def orElse_def)
  have g: "getProp ?row (Some ''Counts'') = JNum (Fin 40)"
    by (simp add: getProp_def keyName_def)
  have hyp: "keyTruthy (Some ''Counts'') \<and> getProp ?row (Some ''Counts'') \<noteq> Undefined
      \<and> \<not> isNaN (parseIntOf exampleEnv (getProp ?row (Some ''Counts'')))"
    by (simp add: g keyTruthy_def parseInt40 isNaN_def)
  from t have "\<forall>tk ck catk pk row.
          etTerm (enrichRow exampleEnv tk ck catk pk row)
            = toStr exampleEnv (orElse (getProp row tk) (JStr ''Unknown''))
          \<and> (keyTruthy ck \<and> getProp row ck \<noteq> Undefined
                \<and> \<not> isNaN (parseIntOf exampleEnv (getProp row ck))
                \<longrightarrow> etCount (enrichRow exampleEnv tk ck catk pk row)
                      = parseIntOf exampleEnv (getProp row ck))"
    by (elim conjE)
  then have "etCount (enrichRow exampleEnv (Some ''Term'') (Some ''Counts'') None None ?row)
      = parseIntOf exampleEnv (getProp ?row (Some ''Counts''))"
    using hyp by blast
  then have 6: "etCount (enrichRow exampleEnv (Some ''Term'') (Some ''Counts'') None None ?row) = Fin 40"
    by (simp only: g parseInt40)
  have 5: "map etCount (parseEnrichment exampleEnv (Some enrichSheet)) = [Fin 40]"
    unfolding pe enrichJson
    by (simp add: enrichRow_def Let_def getProp_def keyName_def keyTruthy_def isNaN_def
        parseInt40)
  show ?thesis using 0 1 2 ft 3 ne 4 5 6 by (intro conjI)
qed


subsection \<open>Downsampling\<close>
















lemma dgeRow_points:
  "pointsInv J acc \<Longrightarrow> pointsInv J (dgeRow J a b c d acc row)"
  by (auto simp: pointsInv_def dgeRow_def Let_def)

lemma foldl_dgeRow_points:
  "pointsInv J acc \<Longrightarrow> pointsInv J (foldl (dgeRow J a b c d) acc rows)"
  by (induction rows arbitrary: acc) (simp_all add: dgeRow_points)

lemma dgeOfJson_points:
  "(\<forall>p\<in>set (sigPoints (dgeOfJson J jsonData)). psig p)
   \<and> (\<forall>p\<in>set (nonSigPoints (dgeOfJson J jsonData)). \<not> psig p)"
proof -
  have "pointsInv J initAcc" by (simp add: pointsInv_def initAcc_def)
  then have "pointsInv J (dgeOfJson J jsonData)"
    unfolding dgeOfJson_def Let_def by (rule foldl_dgeRow_points)
  then show ?thesis by (simp add: pointsInv_def)
qed











































end
